theory Spec2Isabelle
  imports
    Main
    "HOL-Library.List_Lexorder"
    "HOL-Library.Product_Lexorder"
    "HOL-Library.Sublist"
begin

section \<open>The cinema-schedule scraper (scraper.py) as HOL functions\<close>

text \<open>
  The program fetches the paginated listing of a cinema schedule, extracts one record per
  movie, enriches each record from the movie's detail page and writes one calendar event
  per movie to \<^verbatim>\<open>calendar.ics\<close>. Every function of \<^verbatim>\<open>scraper.py\<close> that
  decides one of the properties below is translated here under its own name. What the
  program takes from its libraries (the HTTP transport, the HTML parser, the CSS selector
  engine, \<^verbatim>\<open>urljoin\<close>, \<^verbatim>\<open>str.lower\<close>, the table of Unicode decimal
  digits, the wall clock and the console) is a field of the record \<open>env\<close>, so every
  theorem holds for every behaviour of these libraries.
\<close>

subsection \<open>Python strings\<close>

text \<open>
  A Python \<^verbatim>\<open>str\<close> is a sequence of Unicode code points, and \<^verbatim>\<open>len\<close> counts
  code points (the titles are Cyrillic), so a string is a list of code points here;
  \<open>lit\<close> turns an ASCII literal into one. Comparison of two strings is lexicographic
  by code point, which is the order of lists.
\<close>

type_synonym pystr = "nat list"

definition lit :: "string \<Rightarrow> pystr" where
  "lit s = map of_char s"

text \<open>The characters \<^verbatim>\<open>str.strip()\<close> removes: those for which \<^verbatim>\<open>str.isspace\<close> holds.\<close>

definition is_space :: "nat \<Rightarrow> bool" where
  "is_space c \<longleftrightarrow>
     (9 \<le> c \<and> c \<le> 13) \<or> (28 \<le> c \<and> c \<le> 32) \<or> c = 133 \<or> c = 160 \<or> c = 5760 \<or>
     (8192 \<le> c \<and> c \<le> 8202) \<or> c = 8232 \<or> c = 8233 \<or> c = 8239 \<or> c = 8287 \<or> c = 12288"

definition strip :: "pystr \<Rightarrow> pystr" where
  "strip s = rev (dropWhile is_space (rev (dropWhile is_space s)))"

text \<open>\<^verbatim>\<open>s.replace('.', ':')\<close>\<close>

definition replace_dot :: "pystr \<Rightarrow> pystr" where
  "replace_dot s = map (\<lambda>c. if c = 46 then 58 else c) s"

text \<open>\<^verbatim>\<open>str(n)\<close> for a non-negative integer (used in the page URLs).\<close>

fun str_nat :: "nat \<Rightarrow> pystr" where
  "str_nat n = (if n < 10 then [48 + n] else str_nat (n div 10) @ [48 + n mod 10])"

text \<open>
  In a \<^verbatim>\<open>str\<close> pattern, \<^verbatim>\<open>\d\<close> matches every Unicode decimal digit, and
  \<^verbatim>\<open>int\<close> reads every such digit with its value. Unicode's decimal digits come in
  runs of ten consecutive code points, zero first; \<open>zeros\<close> lists the zeros of the
  runs other than the ASCII one (the table depends on the Unicode version, so it is a
  parameter).
\<close>

fun digit_value :: "nat list \<Rightarrow> nat \<Rightarrow> nat option" where
  "digit_value [] c = None"
| "digit_value (z # zs) c = (if z \<le> c \<and> c \<le> z + 9 then Some (c - z) else digit_value zs c)"

definition digit :: "nat list \<Rightarrow> nat \<Rightarrow> nat option" where
  "digit zeros c = digit_value (48 # zeros) c"

definition is_digit :: "nat list \<Rightarrow> nat \<Rightarrow> bool" where
  "is_digit zeros c \<longleftrightarrow> digit zeros c \<noteq> None"

subsection \<open>Dates and times of day\<close>

text \<open>
  A \<^verbatim>\<open>date\<close> is (year, month, day), ordered as Python orders dates. \<open>mk_date\<close> is
  the constructor \<^verbatim>\<open>date(year, month, day)\<close>, with \<open>None\<close> for its
  \<^verbatim>\<open>ValueError\<close>. A time of day is its number of microseconds since midnight. The
  only arithmetic of the program is \<^verbatim>\<open>+ timedelta(days=1)\<close> and
  \<^verbatim>\<open>+ timedelta(hours=2)\<close>; the upper end of Python's calendar (year 9999) is not
  modelled.
\<close>

type_synonym date = "int \<times> int \<times> int"

definition is_leap :: "int \<Rightarrow> bool" where
  "is_leap y \<longleftrightarrow> y mod 4 = 0 \<and> (y mod 100 \<noteq> 0 \<or> y mod 400 = 0)"

definition days_in_month :: "int \<Rightarrow> int \<Rightarrow> int" where
  "days_in_month y m =
     (if m = 2 then (if is_leap y then 29 else 28)
      else if m = 4 \<or> m = 6 \<or> m = 9 \<or> m = 11 then 30 else 31)"

definition mk_date :: "int \<Rightarrow> int \<Rightarrow> int \<Rightarrow> date option" where
  "mk_date y m d =
     (if 1 \<le> y \<and> y \<le> 9999 \<and> 1 \<le> m \<and> m \<le> 12 \<and> 1 \<le> d \<and> d \<le> days_in_month y m
      then Some (y, m, d) else None)"

fun next_day :: "date \<Rightarrow> date" where
  "next_day (y, m, d) =
     (if d < days_in_month y m then (y, m, d + 1)
      else if m < 12 then (y, m + 1, 1)
      else (y + 1, 1, 1))"

record datetime =
  dt_date :: date
  dt_time :: nat

definition day_us :: nat where
  "day_us = 86400000000"

definition time_hm :: "nat \<Rightarrow> nat \<Rightarrow> nat" where
  "time_hm h m = (h * 3600 + m * 60) * 1000000"

text \<open>\<^verbatim>\<open>dt + timedelta(days=d, hours=h)\<close>\<close>

definition plus_timedelta :: "datetime \<Rightarrow> nat \<Rightarrow> nat \<Rightarrow> datetime" where
  "plus_timedelta dt d h =
     (let t = dt_time dt + time_hm h 0
      in \<lparr>dt_date = (next_day ^^ (d + t div day_us)) (dt_date dt), dt_time = t mod day_us\<rparr>)"

text \<open>\<^verbatim>\<open>datetime.combine(date, time)\<close>\<close>

definition combine :: "date \<Rightarrow> nat \<Rightarrow> datetime" where
  "combine d t = \<lparr>dt_date = d, dt_time = t\<rparr>"

subsection \<open>Movie records, calendar events, documents\<close>

text \<open>
  The dictionary the listing extractor builds for a movie, with its five keys. The key
  \<^verbatim>\<open>times\<close> is the field \<open>times'\<close>.
\<close>

record movie =
  title :: pystr
  url :: "pystr option"
  times' :: "pystr list"
  countries :: "pystr list"
  nearest_show_date :: "date option"

text \<open>
  An event of the calendar. Its description is the list of the lines the program joins
  with a newline, each line kept as the data it is formatted from.
\<close>

datatype fragment =
    Film pystr
  | Country "pystr list"
  | Sessions "pystr list"
  | NearestShow date
  | EventDate datetime
  | Source pystr
  | Plain pystr

record event =
  ev_name :: pystr
  ev_begin :: datetime
  ev_end :: datetime
  ev_description :: "fragment list"
  ev_url :: "pystr option"

text \<open>
  A parsed document is a tree of tags and text nodes. A tag has its name, its classes
  (the parser splits the \<^verbatim>\<open>class\<close> attribute at white space), its other attributes
  and its children.
\<close>

datatype node =
    Text pystr
  | Tag pystr "pystr list" "(pystr \<times> pystr) list" "node list"

subsection \<open>Configuration, environment and the state of a run\<close>

text \<open>
  The module's globals after the command line is read. \<^verbatim>\<open>MAX_MOVIES\<close> is
  \<^verbatim>\<open>None\<close> or an integer; the delays are non-negative numbers of seconds (a negative
  \<^verbatim>\<open>--delay\<close> makes \<^verbatim>\<open>time.sleep\<close> raise and is not modelled).
\<close>

record config =
  max_movies :: "int option"
  max_pages :: nat
  base_delay :: nat
  skip_details :: bool
  exclude_countries :: "pystr list"

definition MAX_RETRIES :: nat where "MAX_RETRIES = 3"
definition BACKOFF_FACTOR :: nat where "BACKOFF_FACTOR = 3"
definition PAGE_DELAY :: nat where "PAGE_DELAY = 8"
definition DETAIL_DELAY :: nat where "DETAIL_DELAY = 12"

text \<open>
  What the program does to the outside, in the order it does it: a GET, a
  \<^verbatim>\<open>time.sleep\<close> of a whole number of seconds, and the \<^verbatim>\<open>time.sleep\<close> of
  \<open>smart_delay\<close>, whose length is the given base plus a random jitter
  (\<^verbatim>\<open>random.uniform(1, RANDOM_DELAY)\<close>).
\<close>

datatype effect = Get pystr | Sleep nat | SleepJitter nat

text \<open>
  The state of a run: how many requests were sent, the effects so far, and the content of
  \<^verbatim>\<open>calendar.ics\<close> (\<open>None\<close> while the file does not exist, else the events of the
  calendar written last).
\<close>

record world =
  sent :: nat
  trace :: "effect list"
  ics :: "event list option"

text \<open>
  An exception of a class derived from \<^verbatim>\<open>Exception\<close> other than those of
  \<^verbatim>\<open>requests\<close>, with its message (\<^verbatim>\<open>str(e)\<close>).
\<close>

datatype exn = Exception pystr

text \<open>
  What \<^verbatim>\<open>session.get\<close> does: a response with its status code and body, a
  \<^verbatim>\<open>requests.exceptions.Timeout\<close>, another \<^verbatim>\<open>RequestException\<close>, or an exception
  of another class (which \<open>get_soup\<close> does not catch).
\<close>

datatype response =
    Status nat pystr
  | Timeout
  | RequestException
  | Crash exn

record env =
  http_get :: "pystr \<Rightarrow> nat \<Rightarrow> response"
  html_parser :: "pystr \<Rightarrow> node"
  css_select :: "pystr \<Rightarrow> node \<Rightarrow> node list"
  urljoin :: "pystr \<Rightarrow> pystr \<Rightarrow> pystr"
  lower :: "pystr \<Rightarrow> pystr"
  zeros :: "nat list"
  clock :: "world \<Rightarrow> datetime"
  report :: "world \<Rightarrow> exn option"

subsection \<open>The rate-limited fetcher\<close>

definition sleep :: "nat \<Rightarrow> world \<Rightarrow> world" where
  "sleep n w = w\<lparr>trace := trace w @ [Sleep n]\<rparr>"

definition smart_delay :: "config \<Rightarrow> pystr \<Rightarrow> world \<Rightarrow> world" where
  "smart_delay cfg request_type w =
     (let base =
        (if request_type = lit ''default'' then base_delay cfg
         else if request_type = lit ''detail'' then DETAIL_DELAY
         else if request_type = lit ''page'' then PAGE_DELAY
         else if request_type = lit ''retry'' then base_delay cfg * 2
         else base_delay cfg)
      in w\<lparr>trace := trace w @ [SleepJitter base]\<rparr>)"

text \<open>\<^verbatim>\<open>session.get(url, timeout=45)\<close>: the next answer of the transport.\<close>

definition session_get :: "env \<Rightarrow> pystr \<Rightarrow> world \<Rightarrow> response \<times> world" where
  "session_get env u w =
     (http_get env u (sent w), w\<lparr>sent := Suc (sent w), trace := trace w @ [Get u]\<rparr>)"

text \<open>
  The loop \<^verbatim>\<open>for attempt in range(1, retries + 1)\<close> of \<open>get_soup\<close>, from the
  iteration \<open>attempt\<close> on, with the current value of \<^verbatim>\<open>delay\<close>. The result is
  \<open>Inr (Some soup)\<close>, \<open>Inr None\<close> for \<^verbatim>\<open>return None\<close>, or \<open>Inl e\<close> for an exception
  that leaves the function. \<^verbatim>\<open>raise_for_status\<close> raises an \<^verbatim>\<open>HTTPError\<close> (a
  \<^verbatim>\<open>RequestException\<close>) for the codes 400 to 599.
\<close>

function get_soup_loop ::
  "env \<Rightarrow> config \<Rightarrow> pystr \<Rightarrow> nat \<Rightarrow> pystr \<Rightarrow> nat \<Rightarrow> nat \<Rightarrow> world \<Rightarrow> (exn + node option) \<times> world"
where
  "get_soup_loop env cfg u retries request_type attempt delay w =
     (if retries < attempt then (Inr None, w)
      else
        let w1 = (if 1 < attempt then smart_delay cfg (lit ''retry'') w else w);
            resp = fst (session_get env u w1);
            w2 = snd (session_get env u w1)
        in (case resp of
              Status code body \<Rightarrow>
                if code = 429 then
                  get_soup_loop env cfg u retries request_type (Suc attempt)
                    (delay * BACKOFF_FACTOR) (sleep (delay * BACKOFF_FACTOR) w2)
                else if code = 404 then (Inr None, w2)
                else if code = 403 then
                  get_soup_loop env cfg u retries request_type (Suc attempt)
                    (delay * 2) (sleep (delay * 2) w2)
                else if 400 \<le> code \<and> code < 600 then
                  (if attempt < retries then
                     get_soup_loop env cfg u retries request_type (Suc attempt)
                       (delay * BACKOFF_FACTOR) (sleep delay w2)
                   else (Inr None, w2))
                else (Inr (Some (html_parser env body)), smart_delay cfg request_type w2)
            | Timeout \<Rightarrow>
                if attempt < retries then
                  get_soup_loop env cfg u retries request_type (Suc attempt)
                    (delay * BACKOFF_FACTOR) (sleep delay w2)
                else get_soup_loop env cfg u retries request_type (Suc attempt) delay w2
            | RequestException \<Rightarrow>
                if attempt < retries then
                  get_soup_loop env cfg u retries request_type (Suc attempt)
                    (delay * BACKOFF_FACTOR) (sleep delay w2)
                else (Inr None, w2)
            | Crash e \<Rightarrow> (Inl e, w2)))"
  by pat_completeness auto
termination
  by (relation "measure (\<lambda>(env, cfg, u, retries, request_type, attempt, delay, w). Suc retries - attempt)")
     auto

declare get_soup_loop.simps [simp del]

definition get_soup :: "env \<Rightarrow> config \<Rightarrow> pystr \<Rightarrow> nat \<Rightarrow> pystr \<Rightarrow> world \<Rightarrow> (exn + node option) \<times> world"
where
  "get_soup env cfg u retries request_type w =
     get_soup_loop env cfg u retries request_type 1 (base_delay cfg) w"

subsection \<open>Queries on a document\<close>

text \<open>
  \<^verbatim>\<open>get_text()\<close> joins the strings of all text nodes below a tag, in document order;
  \<^verbatim>\<open>get_text(strip=True)\<close> strips each of them first and leaves out those that
  become empty.
\<close>

fun strings :: "node \<Rightarrow> pystr list" where
  "strings (Text s) = [s]"
| "strings (Tag name classes attrs children) = concat (map strings children)"

definition get_text :: "node \<Rightarrow> pystr" where
  "get_text n = concat (strings n)"

definition get_text_strip :: "node \<Rightarrow> pystr" where
  "get_text_strip n = concat (filter (\<lambda>s. s \<noteq> []) (map strip (strings n)))"

text \<open>The nodes below a tag, in document order.\<close>

fun descendants :: "node \<Rightarrow> node list" where
  "descendants (Text s) = []"
| "descendants (Tag name classes attrs children) =
     concat (map (\<lambda>c. c # descendants c) children)"

fun tag_name :: "node \<Rightarrow> pystr option" where
  "tag_name (Text s) = None"
| "tag_name (Tag name classes attrs children) = Some name"

fun tag_classes :: "node \<Rightarrow> pystr list" where
  "tag_classes (Text s) = []"
| "tag_classes (Tag name classes attrs children) = classes"

text \<open>\<^verbatim>\<open>tag.get(key)\<close>\<close>

fun get_attr :: "node \<Rightarrow> pystr \<Rightarrow> pystr option" where
  "get_attr (Text s) key = None"
| "get_attr (Tag name classes attrs children) key = map_of attrs key"

text \<open>\<^verbatim>\<open>find_all('a', href=True)\<close>, \<^verbatim>\<open>find('a', href=True)\<close> and
  \<^verbatim>\<open>find_all('a', class_=c)\<close>\<close>

definition find_all_a_href :: "node \<Rightarrow> node list" where
  "find_all_a_href n =
     filter (\<lambda>d. tag_name d = Some (lit ''a'') \<and> get_attr d (lit ''href'') \<noteq> None) (descendants n)"

definition find_a_href :: "node \<Rightarrow> node option" where
  "find_a_href n = (case find_all_a_href n of [] \<Rightarrow> None | l # ls \<Rightarrow> Some l)"

definition find_all_a_class :: "pystr \<Rightarrow> node \<Rightarrow> node list" where
  "find_all_a_class c n =
     filter (\<lambda>d. tag_name d = Some (lit ''a'') \<and> c \<in> set (tag_classes d)) (descendants n)"

text \<open>\<^verbatim>\<open>select_one\<close> is the first element of \<^verbatim>\<open>select\<close>, or \<^verbatim>\<open>None\<close>.\<close>

definition select_one :: "env \<Rightarrow> pystr \<Rightarrow> node \<Rightarrow> node option" where
  "select_one env sel n = (case css_select env sel n of [] \<Rightarrow> None | e # es \<Rightarrow> Some e)"

subsection \<open>Time-shaped patterns and the strict parse of a time\<close>

text \<open>
  The three patterns of the program are \<^verbatim>\<open>(\d{1,2}[:.:]\d{2})\<close>,
  \<^verbatim>\<open>(\d{1,2}:\d{2})\<close> and \<^verbatim>\<open>(\d{1,2}\.\d{2})\<close>: they differ in the separators they
  allow, so a pattern is the list of its separators. \<^verbatim>\<open>\d{1,2}\<close> is greedy: two
  digits are tried before one.
\<close>

definition seps_both :: "nat list" where "seps_both = [58, 46]"
definition seps_colon :: "nat list" where "seps_colon = [58]"
definition seps_dot :: "nat list" where "seps_dot = [46]"

definition match2 :: "nat list \<Rightarrow> nat list \<Rightarrow> pystr \<Rightarrow> bool" where
  "match2 z seps s =
     (case s of
        d1 # d2 # c # m1 # m2 # rest \<Rightarrow>
          is_digit z d1 \<and> is_digit z d2 \<and> c \<in> set seps \<and> is_digit z m1 \<and> is_digit z m2
      | _ \<Rightarrow> False)"

definition match1 :: "nat list \<Rightarrow> nat list \<Rightarrow> pystr \<Rightarrow> bool" where
  "match1 z seps s =
     (case s of
        d1 # c # m1 # m2 # rest \<Rightarrow> is_digit z d1 \<and> c \<in> set seps \<and> is_digit z m1 \<and> is_digit z m2
      | _ \<Rightarrow> False)"

text \<open>
  \<^verbatim>\<open>re.findall(pattern, text)\<close>: the matches from left to right, each search starting
  where the match before it ended. \<^verbatim>\<open>re.search\<close> gives the first of them.
\<close>

function findall :: "nat list \<Rightarrow> nat list \<Rightarrow> pystr \<Rightarrow> pystr list" where
  "findall z seps s =
     (if s = [] then []
      else if match2 z seps s then take 5 s # findall z seps (drop 5 s)
      else if match1 z seps s then take 4 s # findall z seps (drop 4 s)
      else findall z seps (tl s))"
  by pat_completeness auto
termination
  by (relation "measure (\<lambda>(z, seps, s). length s)") auto

declare findall.simps [simp del]

definition search :: "nat list \<Rightarrow> nat list \<Rightarrow> pystr \<Rightarrow> pystr option" where
  "search z seps s = (case findall z seps s of [] \<Rightarrow> None | m # ms \<Rightarrow> Some m)"

text \<open>
  \<^verbatim>\<open>datetime.strptime(s, '%H:%M')\<close>. The library matches the regular expression
  \<^verbatim>\<open>(?P<H>2[0-3]|[0-1]\d|\d):(?P<M>[0-5]\d|\d)\<close> at the start of \<open>s\<close>, takes the first
  way to match in the order of the alternatives, and raises \<^verbatim>\<open>ValueError\<close> when
  nothing matches or when the match does not end where \<open>s\<close> ends. \<open>hours s\<close> lists the
  ways to read the hour (value and rest of the string) in that order, \<open>minutes\<close> the ways
  to read the minute. The result is (hour, minute), or \<open>None\<close> for the
  \<^verbatim>\<open>ValueError\<close>.
\<close>

definition hours :: "nat list \<Rightarrow> pystr \<Rightarrow> (nat \<times> pystr) list" where
  "hours z s =
     (case s of
        c1 # c2 # rest \<Rightarrow>
          (if c1 = 50 \<and> 48 \<le> c2 \<and> c2 \<le> 51 then [(20 + (c2 - 48), rest)] else []) @
          (case digit z c2 of
             Some v \<Rightarrow> if c1 = 48 \<or> c1 = 49 then [((c1 - 48) * 10 + v, rest)] else []
           | None \<Rightarrow> [])
      | _ \<Rightarrow> []) @
     (case s of
        c # rest \<Rightarrow> (case digit z c of Some v \<Rightarrow> [(v, rest)] | None \<Rightarrow> [])
      | _ \<Rightarrow> [])"

definition minutes :: "nat list \<Rightarrow> pystr \<Rightarrow> (nat \<times> pystr) list" where
  "minutes z s =
     (case s of
        c1 # c2 # rest \<Rightarrow>
          (case digit z c2 of
             Some v \<Rightarrow> if 48 \<le> c1 \<and> c1 \<le> 53 then [((c1 - 48) * 10 + v, rest)] else []
           | None \<Rightarrow> [])
      | _ \<Rightarrow> []) @
     (case s of
        c # rest \<Rightarrow> (case digit z c of Some v \<Rightarrow> [(v, rest)] | None \<Rightarrow> [])
      | _ \<Rightarrow> [])"

definition strptime_HM :: "nat list \<Rightarrow> pystr \<Rightarrow> (nat \<times> nat) option" where
  "strptime_HM z s =
     (case concat (map (\<lambda>(h, r).
              (case r of
                 c # r' \<Rightarrow> if c = 58 then map (\<lambda>(m, r''). (h, m, r'')) (minutes z r') else []
               | [] \<Rightarrow> [])) (hours z s)) of
        [] \<Rightarrow> None
      | (h, m, r'') # alts \<Rightarrow> if r'' = [] then Some (h, m) else None)"

text \<open>
  \<^verbatim>\<open>int(s)\<close>: white space around the number is ignored, a sign may come first, and
  the digits may be grouped by single underscores. \<open>None\<close> is the \<^verbatim>\<open>ValueError\<close>.
\<close>

fun nat_digits :: "nat list \<Rightarrow> pystr \<Rightarrow> nat \<Rightarrow> nat option" where
  "nat_digits z [] acc = Some acc"
| "nat_digits z (c # cs) acc =
     (if c = 95 then
        (case cs of
           [] \<Rightarrow> None
         | d # ds \<Rightarrow> (case digit z d of None \<Rightarrow> None | Some v \<Rightarrow> nat_digits z ds (acc * 10 + v)))
      else (case digit z c of None \<Rightarrow> None | Some v \<Rightarrow> nat_digits z cs (acc * 10 + v)))"

definition nat_of_digits :: "nat list \<Rightarrow> pystr \<Rightarrow> nat option" where
  "nat_of_digits z s =
     (case s of
        [] \<Rightarrow> None
      | c # cs \<Rightarrow> (case digit z c of None \<Rightarrow> None | Some v \<Rightarrow> nat_digits z cs v))"

definition int_of_str :: "nat list \<Rightarrow> pystr \<Rightarrow> int option" where
  "int_of_str z s =
     (case strip s of
        [] \<Rightarrow> None
      | c # cs \<Rightarrow>
          if c = 45 then map_option (\<lambda>n. - int n) (nat_of_digits z cs)
          else if c = 43 then map_option int (nat_of_digits z cs)
          else map_option int (nat_of_digits z (c # cs)))"

subsection \<open>The listing extractor\<close>

definition movie_selectors :: "pystr list" where
  "movie_selectors =
     [lit ''.movie-item'', lit ''.film-item'', lit ''.schedule-item'', lit ''[data-movie]'',
      lit ''.movie'', lit ''.film'', lit ''article'', lit ''.content-item'', lit ''.list-item'',
      lit ''.cinema-movie'', lit ''.schedule-movie'', lit ''.event-item'', lit ''.item'']"

definition title_selectors :: "pystr list" where
  "title_selectors =
     [lit ''h1'', lit ''h2'', lit ''h3'', lit ''.title'', lit ''.name'', lit ''a'', lit ''strong'']"

text \<open>
  The loop over \<open>movie_selectors\<close>: the elements of the first selector that selects
  anything, \<open>[]\<close> when none does.
\<close>

fun select_first :: "env \<Rightarrow> node \<Rightarrow> pystr list \<Rightarrow> node list" where
  "select_first env soup [] = []"
| "select_first env soup (selector # selectors) =
     (let elements = css_select env selector soup
      in if elements \<noteq> [] then elements else select_first env soup selectors)"

text \<open>
  The loop over \<open>title_selectors\<close> (lines 379 to 384); \<open>ttl\<close> is the current value of
  the variable \<^verbatim>\<open>title\<close>, \<open>None\<close> at the start. The loop is left at the first text that is not
  empty and longer than 3; a shorter text stays in the variable while the loop goes on.
\<close>

fun find_title :: "env \<Rightarrow> node \<Rightarrow> pystr list \<Rightarrow> pystr option \<Rightarrow> pystr option" where
  "find_title env element [] ttl = ttl"
| "find_title env element (sel # sels) ttl =
     (case select_one env sel element of
        None \<Rightarrow> find_title env element sels ttl
      | Some title_elem \<Rightarrow>
          (let t = get_text_strip title_elem
           in if t \<noteq> [] \<and> 3 < length t then Some t
              else find_title env element sels (Some t)))"

text \<open>
  The two loops over the patterns and their matches (lines 398 to 407): a match is
  normalised with \<open>replace_dot\<close>, checked by the strict parse and appended unless it is
  in the list already.
\<close>

fun add_times :: "nat list \<Rightarrow> pystr list \<Rightarrow> pystr list \<Rightarrow> pystr list" where
  "add_times z [] tms = tms"
| "add_times z (match # matches) tms =
     (let time_str = replace_dot match
      in case strptime_HM z time_str of
           None \<Rightarrow> add_times z matches tms
         | Some parsed_time \<Rightarrow>
             add_times z matches (if time_str \<in> set tms then tms else tms @ [time_str]))"

definition element_times :: "nat list \<Rightarrow> pystr \<Rightarrow> pystr list" where
  "element_times z element_text =
     add_times z
       (concat (map (\<lambda>pattern. findall z pattern element_text) [seps_both, seps_colon, seps_dot]))
       []"

definition afisha :: pystr where
  "afisha = lit ''https://www.afisha.ru''"

text \<open>The body of the loop over the movie elements: the record of a container, if any.\<close>

definition element_movie :: "env \<Rightarrow> node \<Rightarrow> movie option" where
  "element_movie env element =
     (case find_title env element title_selectors None of
        None \<Rightarrow> None
      | Some t \<Rightarrow>
          if t = [] then None
          else Some
            \<lparr>title = t,
             url = (case find_a_href element of
                      None \<Rightarrow> None
                    | Some link_elem \<Rightarrow>
                        Some (urljoin env afisha (the (get_attr link_elem (lit ''href''))))),
             times' = element_times (zeros env) (get_text element),
             countries = [],
             nearest_show_date = None\<rparr>)"

text \<open>The fallback over the links whose target contains \<^verbatim>\<open>movie\<close> or \<^verbatim>\<open>film\<close>.\<close>

definition link_movie :: "env \<Rightarrow> node \<Rightarrow> movie option" where
  "link_movie env link =
     (let t = get_text_strip link
      in if t \<noteq> [] \<and> 3 < length t
         then Some
           \<lparr>title = t,
            url = Some (urljoin env afisha (the (get_attr link (lit ''href'')))),
            times' = [], countries = [], nearest_show_date = None\<rparr>
         else None)"

definition extract_movie_data_from_schedule :: "env \<Rightarrow> node \<Rightarrow> movie list" where
  "extract_movie_data_from_schedule env soup =
     (let movie_elements = select_first env soup movie_selectors
      in if movie_elements = [] then
           (let links = find_all_a_href soup;
                movie_links =
                  filter (\<lambda>link. sublist (lit ''movie'') (the (get_attr link (lit ''href''))) \<or>
                                  sublist (lit ''film'') (the (get_attr link (lit ''href'')))) links
            in List.map_filter (link_movie env) movie_links)
         else List.map_filter (element_movie env) movie_elements)"

subsection \<open>The detail page: nearest show date and show times\<close>

definition calendar_selectors :: "pystr list" where
  "calendar_selectors =
     [lit ''.EyErB'',
      lit ''[aria-label='' @ [34, 1050, 1072, 1083, 1077, 1085, 1076, 1072, 1088, 1100, 34] @ lit '']'',
      lit ''.calendar'', lit ''.schedule-calendar'']"

fun find_widget :: "env \<Rightarrow> node \<Rightarrow> pystr list \<Rightarrow> node option" where
  "find_widget env soup [] = None"
| "find_widget env soup (selector # selectors) =
     (case select_one env selector soup of
        Some calendar_widget \<Rightarrow> Some calendar_widget
      | None \<Rightarrow> find_widget env soup selectors)"

text \<open>The genitive month names the program looks for: October, November, December.\<close>

definition oktyabrya :: pystr where "oktyabrya = [1086, 1082, 1090, 1103, 1073, 1088, 1103]"
definition noyabrya :: pystr where "noyabrya = [1085, 1086, 1103, 1073, 1088, 1103]"
definition dekabrya :: pystr where "dekabrya = [1076, 1077, 1082, 1072, 1073, 1088, 1103]"

text \<open>
  The body of the loop over the active links of the calendar: the date of a link, or
  \<open>None\<close> when the link has no day element, when \<^verbatim>\<open>int\<close> fails on the day, or when
  \<^verbatim>\<open>date\<close> refuses the day. \<open>now\<close> is \<^verbatim>\<open>datetime.now()\<close>.
\<close>

definition link_date :: "env \<Rightarrow> datetime \<Rightarrow> node \<Rightarrow> date option" where
  "link_date env now link =
     (let aria_label = (case get_attr link (lit ''aria-label'') of None \<Rightarrow> [] | Some l \<Rightarrow> l)
      in case select_one env (lit ''.YCVqY'') link of
           None \<Rightarrow> None
         | Some day_elem \<Rightarrow>
             (let day_number = get_text_strip day_elem;
                  month_year =
                    (if sublist oktyabrya aria_label then (10, 2025)
                     else if sublist noyabrya aria_label then (11, 2025)
                     else if sublist dekabrya aria_label then (12, 2025)
                     else (fst (snd (dt_date now)), fst (dt_date now)))
              in case int_of_str (zeros env) day_number of
                   None \<Rightarrow> None
                 | Some day \<Rightarrow> mk_date (snd month_year) (fst month_year) day))"

fun collect_dates :: "env \<Rightarrow> datetime \<Rightarrow> node list \<Rightarrow> date list \<Rightarrow> date list" where
  "collect_dates env now [] available_dates = available_dates"
| "collect_dates env now (link # links) available_dates =
     (case link_date env now link of
        None \<Rightarrow> collect_dates env now links available_dates
      | Some show_date \<Rightarrow> collect_dates env now links (available_dates @ [show_date]))"

definition parse_schedule_calendar :: "env \<Rightarrow> datetime \<Rightarrow> node \<Rightarrow> date option" where
  "parse_schedule_calendar env now soup =
     (case find_widget env soup calendar_selectors of
        None \<Rightarrow> None
      | Some calendar_widget \<Rightarrow>
          (let date_links = find_all_a_class (lit ''pdT6c'') calendar_widget;
               available_dates = collect_dates env now date_links []
           in case sort available_dates of
                [] \<Rightarrow> None
              | nearest_date # later \<Rightarrow> Some nearest_date))"

definition time_selectors :: "pystr list" where
  "time_selectors =
     [lit ''.showtime'', lit ''.session-time'', lit ''.time'', lit ''[data-time]'',
      lit ''.screening-time'']"

text \<open>The first part of \<open>parse_showtimes_from_page\<close>: one match at most per element.\<close>

fun add_elem_times :: "nat list \<Rightarrow> node list \<Rightarrow> pystr list \<Rightarrow> pystr list" where
  "add_elem_times z [] showtimes = showtimes"
| "add_elem_times z (elem # elems) showtimes =
     (case search z seps_both (get_text_strip elem) of
        None \<Rightarrow> add_elem_times z elems showtimes
      | Some m \<Rightarrow>
          (let time_str = replace_dot m
           in case strptime_HM z time_str of
                None \<Rightarrow> add_elem_times z elems showtimes
              | Some parsed_time \<Rightarrow>
                  add_elem_times z elems
                    (if time_str \<in> set showtimes then showtimes else showtimes @ [time_str])))"

text \<open>The second part: the matches in the whole text whose hour is from 6 to 23.\<close>

fun add_page_times :: "nat list \<Rightarrow> pystr list \<Rightarrow> pystr list \<Rightarrow> pystr list" where
  "add_page_times z [] showtimes = showtimes"
| "add_page_times z (match # matches) showtimes =
     (let time_str = replace_dot match
      in case strptime_HM z time_str of
           None \<Rightarrow> add_page_times z matches showtimes
         | Some parsed_time \<Rightarrow>
             add_page_times z matches
               (if 6 \<le> fst parsed_time \<and> fst parsed_time \<le> 23
                then (if time_str \<in> set showtimes then showtimes else showtimes @ [time_str])
                else showtimes))"

definition parse_showtimes_from_page :: "env \<Rightarrow> node \<Rightarrow> pystr list" where
  "parse_showtimes_from_page env soup =
     (let showtimes =
            add_elem_times (zeros env)
              (concat (map (\<lambda>selector. css_select env selector soup) time_selectors)) []
      in if showtimes = [] then
           add_page_times (zeros env)
             (concat (map (\<lambda>pattern. findall (zeros env) pattern (get_text soup))
                        [seps_colon, seps_dot, seps_both])) []
         else showtimes)"




subsection \<open>The pagination controller\<close>

definition movie_indicators :: "pystr list" where
  "movie_indicators = [lit ''.movie'', lit ''.film'', lit ''.schedule'', lit ''.cinema'', lit ''article'']"

definition page_url :: "pystr \<Rightarrow> nat \<Rightarrow> pystr" where
  "page_url base_url n = base_url @ lit ''page'' @ str_nat n @ lit ''/''"

definition check_next_page_exists ::
  "env \<Rightarrow> config \<Rightarrow> nat \<Rightarrow> pystr \<Rightarrow> world \<Rightarrow> (exn + bool) \<times> world"
where
  "check_next_page_exists env cfg current_page base_url w =
     (let r = get_soup env cfg (page_url base_url (current_page + 1)) 1 (lit ''page'') w
      in case fst r of
           Inl e \<Rightarrow> (Inl e, snd r)
         | Inr None \<Rightarrow> (Inr False, snd r)
         | Inr (Some test_soup) \<Rightarrow>
             (Inr (list_ex (\<lambda>indicator. css_select env indicator test_soup \<noteq> []) movie_indicators),
              snd r))"

text \<open>
  Lines 465 to 472: the movies of a page whose title is not among \<open>existing_titles\<close> are
  appended to \<open>all_movies_data\<close>, and their titles join \<open>existing_titles\<close>. (The count of
  new movies is only logged.)
\<close>

fun add_new :: "movie list \<Rightarrow> movie list \<Rightarrow> pystr set \<Rightarrow> movie list" where
  "add_new [] all_movies_data existing_titles = all_movies_data"
| "add_new (mv # page_movies) all_movies_data existing_titles =
     (if title mv \<notin> existing_titles
      then add_new page_movies (all_movies_data @ [mv]) (insert (title mv) existing_titles)
      else add_new page_movies all_movies_data existing_titles)"

definition merge_page :: "movie list \<Rightarrow> movie list \<Rightarrow> movie list" where
  "merge_page all_movies_data page_movies =
     add_new page_movies all_movies_data (set (map title all_movies_data))"

text \<open>The slice \<^verbatim>\<open>xs[:n]\<close>; a negative \<open>n\<close> counts from the end.\<close>

definition slice_to :: "'a list \<Rightarrow> int \<Rightarrow> 'a list" where
  "slice_to xs n = (if 0 \<le> n then take (nat n) xs else take (length xs - nat (- n)) xs)"

text \<open>
  Lines 476 to 479: \<^verbatim>\<open>if MAX_MOVIES and len(all_movies_data) >= MAX_MOVIES\<close>. The
  result is the truncated list when the test holds; \<^verbatim>\<open>None\<close> and \<open>0\<close> are both
  false for Python.
\<close>

definition limit_reached :: "config \<Rightarrow> movie list \<Rightarrow> movie list option" where
  "limit_reached cfg all_movies_data =
     (case max_movies cfg of
        None \<Rightarrow> None
      | Some n \<Rightarrow>
          if n \<noteq> 0 \<and> n \<le> int (length all_movies_data) then Some (slice_to all_movies_data n)
          else None)"

text \<open>
  The loop \<^verbatim>\<open>while current_page <= MAX_PAGES\<close> of \<open>parse_all_schedule_pages\<close>, from
  the page \<open>current_page\<close> on, with the movies collected so far.
\<close>

function parse_pages_loop ::
  "env \<Rightarrow> config \<Rightarrow> pystr \<Rightarrow> nat \<Rightarrow> movie list \<Rightarrow> world \<Rightarrow> (exn + movie list) \<times> world"
where
  "parse_pages_loop env cfg base_url current_page all_movies_data w =
     (if max_pages cfg < current_page then (Inr all_movies_data, w)
      else
        let r = get_soup env cfg
                  (if current_page = 1 then base_url else page_url base_url current_page)
                  MAX_RETRIES (lit ''page'') w
        in case fst r of
             Inl e \<Rightarrow> (Inl e, snd r)
           | Inr None \<Rightarrow> (Inr all_movies_data, snd r)
           | Inr (Some soup) \<Rightarrow>
               (let page_movies = extract_movie_data_from_schedule env soup
                in if page_movies = [] then (Inr all_movies_data, snd r)
                   else
                     let merged = merge_page all_movies_data page_movies
                     in case limit_reached cfg merged of
                          Some truncated \<Rightarrow> (Inr truncated, snd r)
                        | None \<Rightarrow>
                            if current_page < max_pages cfg then
                              (let c = check_next_page_exists env cfg current_page base_url (snd r)
                               in case fst c of
                                    Inl e \<Rightarrow> (Inl e, snd c)
                                  | Inr has_next \<Rightarrow>
                                      if \<not> has_next then (Inr merged, snd c)
                                      else parse_pages_loop env cfg base_url (Suc current_page) merged
                                             (smart_delay cfg (lit ''page'') (snd c)))
                            else parse_pages_loop env cfg base_url (Suc current_page) merged
                                   (smart_delay cfg (lit ''page'') (snd r))))"
  by pat_completeness auto
termination
  by (relation "measure (\<lambda>(env, cfg, base_url, current_page, all_movies_data, w).
        Suc (max_pages cfg) - current_page)") auto

declare parse_pages_loop.simps [simp del]

definition parse_all_schedule_pages ::
  "env \<Rightarrow> config \<Rightarrow> pystr \<Rightarrow> world \<Rightarrow> (exn + movie list) \<times> world"
where
  "parse_all_schedule_pages env cfg base_url w = parse_pages_loop env cfg base_url 1 [] w"

subsection \<open>The detail enricher\<close>


subsection \<open>The event materializer\<close>

text \<open>\<^verbatim>\<open>d + timedelta(days=n)\<close> on a date.\<close>

definition date_plus_days :: "date \<Rightarrow> nat \<Rightarrow> date" where
  "date_plus_days d n = (next_day ^^ n) d"

definition create_calendar_event :: "env \<Rightarrow> config \<Rightarrow> datetime \<Rightarrow> movie \<Rightarrow> event option" where
  "create_calendar_event env cfg now movie_data =
     (if list_ex (\<lambda>country. country \<in> set (exclude_countries cfg)) (countries movie_data) then None
      else
        let event_date =
              (case nearest_show_date movie_data of
                 Some d \<Rightarrow> d
               | None \<Rightarrow> date_plus_days (dt_date now) 1);
            event_datetime =
              (case times' movie_data of
                 [] \<Rightarrow> combine event_date (time_hm 19 0)
               | time_str # later \<Rightarrow>
                   (case strptime_HM (zeros env) time_str of
                      Some show_time \<Rightarrow> combine event_date (time_hm (fst show_time) (snd show_time))
                    | None \<Rightarrow> combine event_date (time_hm 19 0)));
            movie_url =
              (case url movie_data of None \<Rightarrow> None | Some u \<Rightarrow> if u = [] then None else Some u)
        in Some
             \<lparr>ev_name = title movie_data,
              ev_begin = event_datetime,
              ev_end = plus_timedelta event_datetime 0 2,
              ev_description =
                [Film (title movie_data)] @
                (if countries movie_data \<noteq> [] then [Country (take 3 (countries movie_data))] else []) @
                (if times' movie_data \<noteq> [] then [Sessions (take 5 (times' movie_data))] else []) @
                (case nearest_show_date movie_data of Some d \<Rightarrow> [NearestShow d] | None \<Rightarrow> []) @
                [EventDate event_datetime] @
                (case movie_url of Some u \<Rightarrow> [Source u] | None \<Rightarrow> []),
              ev_url = movie_url\<rparr>)"

subsection \<open>The run\<close>

text \<open>
  Lines 639 to 645: what the detail page gave is written into the record. The program
  builds a \<^verbatim>\<open>set\<close> of the two lists of times and sorts it; \<open>remdups\<close> is one way to
  list the set, and the sorted list does not depend on the way.
\<close>

definition merge_details :: "movie \<Rightarrow> pystr list \<times> date option \<times> pystr list \<Rightarrow> movie" where
  "merge_details movie_data details =
     (let cs = fst details; nearest_date = fst (snd details); detailed_times = snd (snd details)
      in movie_data
           \<lparr>countries := cs,
            nearest_show_date := nearest_date,
            times' := (if detailed_times \<noteq> []
                       then sort (remdups (times' movie_data @ detailed_times))
                       else times' movie_data)\<rparr>)"


definition base_schedule_url :: pystr where
  "base_schedule_url = lit ''https://www.afisha.ru/prm/schedule_cinema/''"









subsection \<open>The invariant of the merge\<close>

text \<open>
  \<open>first_seen_inv al seen\<close> relates the collection \<open>al\<close> to the list \<open>seen\<close> of all
  records merged so far, in the order they were met: the titles of \<open>al\<close> are distinct,
  they are the titles of \<open>seen\<close> in the order of their first occurrence (\<open>remdups\<close> keeps
  the last occurrence, hence the two \<open>rev\<close>), and the record kept for a title is the
  first record of \<open>seen\<close> with that title.
\<close>

definition first_seen_inv :: "movie list \<Rightarrow> movie list \<Rightarrow> bool" where
  "first_seen_inv al seen \<longleftrightarrow>
     distinct (map title al) \<and>
     set (map title al) = set (map title seen) \<and>
     (\<forall>mv \<in> set al. find (\<lambda>x. title x = title mv) seen = Some mv) \<and>
     map title al = rev (remdups (rev (map title seen)))"


subsection \<open>Example inputs\<close>

text \<open>
  A selector engine for the examples: \<^verbatim>\<open>.c\<close> selects the tags below the node that have
  the class \<open>c\<close>, and any other selector is read as a tag name. The example documents
  hold no tag that one of the program's other selectors would select.
\<close>

definition ex_select :: "pystr \<Rightarrow> node \<Rightarrow> node list" where
  "ex_select sel n =
     (case sel of
        [] \<Rightarrow> []
      | c # cls \<Rightarrow>
          if c = 46 then filter (\<lambda>d. cls \<in> set (tag_classes d)) (descendants n)
          else filter (\<lambda>d. tag_name d = Some sel) (descendants n))"

text \<open>
  A listing with three movies, the second of them twice. The second container has the
  show times \<^verbatim>\<open>9.30\<close>, \<^verbatim>\<open>25:61\<close> and \<^verbatim>\<open>10:00\<close> in its text.
\<close>

definition ex_listing :: node where
  "ex_listing =
     Tag (lit ''body'') [] []
       [Tag (lit ''div'') [lit ''movie-item''] []
          [Tag (lit ''h2'') [] [] [Text (lit ''Alien'')]],
        Tag (lit ''div'') [lit ''movie-item''] []
          [Tag (lit ''h2'') [] [] [Text (lit '' Dune '')],
           Tag (lit ''span'') [] [] [Text (lit '' 9.30 25:61 10:00'')]],
        Tag (lit ''div'') [lit ''movie-item''] []
          [Tag (lit ''h2'') [] [] [Text (lit ''Dune'')]],
        Tag (lit ''div'') [lit ''movie-item''] []
          [Tag (lit ''h2'') [] [] [Text (lit ''Heat'')]]]"

text \<open>
  A listing with one movie that links to its detail page, and that detail page, which
  names the country that the default configuration excludes.
\<close>

definition ex_listing_excluded :: node where
  "ex_listing_excluded =
     Tag (lit ''body'') [] []
       [Tag (lit ''div'') [lit ''movie-item''] []
          [Tag (lit ''h2'') [] [] [Text (lit ''Brat 2'')],
           Tag (lit ''a'') [] [(lit ''href'', lit ''/movie/brat2/'')] [Text (lit ''more'')]]]"

definition ex_detail_excluded :: node where
  "ex_detail_excluded =
     Tag (lit ''body'') [] []
       [Tag (lit ''span'') [lit ''country''] [] [Text [1056, 1086, 1089, 1089, 1080, 1103]]]"

text \<open>
  A parser for the examples: the bodies \<^verbatim>\<open>listing\<close>, \<^verbatim>\<open>listing-excluded\<close> and
  \<^verbatim>\<open>detail-excluded\<close> are the documents above, and any other body is a single text
  node.
\<close>

definition ex_parser :: "pystr \<Rightarrow> node" where
  "ex_parser body =
     (if body = lit ''listing'' then ex_listing
      else if body = lit ''listing-excluded'' then ex_listing_excluded
      else if body = lit ''detail-excluded'' then ex_detail_excluded
      else Text body)"

text \<open>A reading of the clock: 31 October 2025, 23:30.\<close>

definition ex_now :: datetime where
  "ex_now = \<lparr>dt_date = (2025, 10, 31), dt_time = time_hm 23 30\<rparr>"

text \<open>
  An environment whose transport is \<open>net\<close>, with this selector engine and this parser;
  its clock always shows \<open>ex_now\<close> and its report never fails. The default
  configuration of the program. The state before a run.
\<close>

definition ex_env :: "(pystr \<Rightarrow> nat \<Rightarrow> response) \<Rightarrow> env" where
  "ex_env net =
     \<lparr>http_get = net, html_parser = ex_parser, css_select = ex_select,
      urljoin = (\<lambda>base href. base @ href), lower = (\<lambda>s. s), zeros = [],
      clock = (\<lambda>w. ex_now), report = (\<lambda>w. None)\<rparr>"

definition ex_cfg :: config where
  "ex_cfg = \<lparr>max_movies = None, max_pages = 10, base_delay = 5, skip_details = False,
     exclude_countries = [[1056, 1086, 1089, 1089, 1080, 1103]]\<rparr>"

definition w0 :: world where
  "w0 = \<lparr>sent = 0, trace = [], ics = None\<rparr>"

text \<open>
  A transport that answers the request for the first listing page with the body
  \<^verbatim>\<open>listing\<close> and every other request with 404.
\<close>

definition ex_net :: "pystr \<Rightarrow> nat \<Rightarrow> response" where
  "ex_net u k = (if u = base_schedule_url then Status 200 (lit ''listing'') else Status 404 [])"


text \<open>A listing whose only container has the two-letter heading \<^verbatim>\<open>Up\<close>.\<close>

definition ex_short :: node where
  "ex_short =
     Tag (lit ''body'') [] []
       [Tag (lit ''div'') [lit ''movie-item''] []
          [Tag (lit ''h2'') [] [] [Text (lit ''Up'')]]]"

text \<open>
  A detail page with a calendar of four active links (for 31 November, 3 December,
  15 November and one without a day element) and a button, and a show time in an
  element of the class \<^verbatim>\<open>showtime\<close>.
\<close>

definition ex_detail :: node where
  "ex_detail =
     Tag (lit ''body'') [] []
       [Tag (lit ''div'') [lit ''EyErB''] []
          [Tag (lit ''a'') [lit ''pdT6c''] [(lit ''aria-label'', lit ''31 '' @ noyabrya)]
             [Tag (lit ''span'') [lit ''YCVqY''] [] [Text (lit ''31'')]],
           Tag (lit ''a'') [lit ''pdT6c''] [(lit ''aria-label'', lit ''3 '' @ dekabrya)]
             [Tag (lit ''span'') [lit ''YCVqY''] [] [Text (lit ''3'')]],
           Tag (lit ''a'') [lit ''pdT6c''] [(lit ''aria-label'', lit ''15 '' @ noyabrya)]
             [Tag (lit ''span'') [lit ''YCVqY''] [] [Text (lit '' 15 '')]],
           Tag (lit ''a'') [lit ''pdT6c''] [(lit ''aria-label'', lit ''16 '' @ noyabrya)] [],
           Tag (lit ''button'') [lit ''pdT6c''] []
             [Tag (lit ''span'') [lit ''YCVqY''] [] [Text (lit ''1'')]]],
        Tag (lit ''span'') [lit ''showtime''] [] [Text (lit '' 21.15 '')]]"

text \<open>Three records for the examples of the merge and of the events.\<close>

definition ex_movie :: "string \<Rightarrow> string list \<Rightarrow> movie" where
  "ex_movie name tms =
     \<lparr>title = lit name, url = None, times' = map lit tms, countries = [], nearest_show_date = None\<rparr>"


section \<open>Properties of the fetcher\<close>

lemma smart_delay_retry:
  "smart_delay cfg (lit ''retry'') w = w\<lparr>trace := trace w @ [SleepJitter (base_delay cfg * 2)]\<rparr>"
  by (simp add: smart_delay_def lit_def)

lemma loop_429_step:
  assumes "attempt \<le> retries"
    and "fst (session_get env u (if 1 < attempt then smart_delay cfg (lit ''retry'') w else w)) =
           Status 429 body"
  shows "get_soup_loop env cfg u retries rt attempt delay w =
      get_soup_loop env cfg u retries rt (Suc attempt) (delay * BACKOFF_FACTOR)
        (sleep (delay * BACKOFF_FACTOR)
           (snd (session_get env u (if 1 < attempt then smart_delay cfg (lit ''retry'') w else w))))"
  using assms by (subst get_soup_loop.simps) (simp add: Let_def)

lemma loop_all_429:
  assumes "\<forall>k. \<exists>body. http_get env u k = Status 429 body"
  shows "Suc retries - attempt = n \<Longrightarrow>
    get_soup_loop env cfg u retries rt attempt delay w =
      (Inr None,
       w\<lparr>sent := sent w + n,
         trace := trace w @
           concat (map (\<lambda>k. (if 1 < attempt + k then [SleepJitter (base_delay cfg * 2)] else []) @
                             [Get u, Sleep (delay * BACKOFF_FACTOR ^ Suc k)]) [0..<n])\<rparr>)"
proof (induction n arbitrary: attempt delay w)
  case 0
  then have "retries < attempt" by simp
  then show ?case by (simp add: get_soup_loop.simps)
next
  case (Suc n)
  then have le: "attempt \<le> retries" and n: "Suc retries - Suc attempt = n" by simp_all
  define w1 where "w1 = (if 1 < attempt then smart_delay cfg (lit ''retry'') w else w)"
  obtain body where b: "http_get env u (sent w1) = Status 429 body" using assms by blast
  define w3 where "w3 = sleep (delay * BACKOFF_FACTOR) (snd (session_get env u w1))"
  have step: "get_soup_loop env cfg u retries rt attempt delay w =
      get_soup_loop env cfg u retries rt (Suc attempt) (delay * BACKOFF_FACTOR) w3"
    unfolding w3_def w1_def
    by (rule loop_429_step[OF le, where body = body]) (use b in \<open>simp add: session_get_def w1_def\<close>)
  have "[0..<Suc n] = 0 # [Suc 0..<Suc n]"
    by (rule upt_conv_Cons) simp
  then have upt: "[0..<Suc n] = 0 # map Suc [0..<n]"
    by (simp only: map_Suc_upt)
  show ?case
    unfolding step Suc.IH[OF n] upt
    by (simp add: w3_def w1_def sleep_def session_get_def smart_delay_retry comp_def mult.assoc)
qed

text \<open>
  C1 (as amended). An HTTP 429 is retried after a wait of the current delay times the
  backoff factor, and the delay is then multiplied by the backoff factor; the retry is the
  next iteration of the attempt loop, so a 429 uses up one attempt like any other failure:
  a fetch whose every attempt receives 429 sends exactly \<open>retries\<close> requests, waits
  \<open>base_delay * 3\<close>, \<open>base_delay * 9\<close>, ... after them, and returns \<open>None\<close>.
\<close>

theorem get_soup_429:
  "(attempt \<le> retries \<and>
    fst (session_get env u (if 1 < attempt then smart_delay cfg (lit ''retry'') w else w)) =
      Status 429 body \<longrightarrow>
      get_soup_loop env cfg u retries rt attempt delay w =
        get_soup_loop env cfg u retries rt (Suc attempt) (delay * BACKOFF_FACTOR)
          (sleep (delay * BACKOFF_FACTOR)
             (snd (session_get env u (if 1 < attempt then smart_delay cfg (lit ''retry'') w else w))))) \<and>
   ((\<forall>k. \<exists>body. http_get env' u' k = Status 429 body) \<longrightarrow>
      get_soup env' cfg' u' retries' rt' w' =
        (Inr None,
         w'\<lparr>sent := sent w' + retries',
           trace := trace w' @
             concat (map (\<lambda>k. (if 0 < k then [SleepJitter (base_delay cfg' * 2)] else []) @
                               [Get u', Sleep (base_delay cfg' * BACKOFF_FACTOR ^ Suc k)])
                       [0..<retries'])\<rparr>))"
proof (intro conjI impI)
  assume "attempt \<le> retries \<and>
    fst (session_get env u (if 1 < attempt then smart_delay cfg (lit ''retry'') w else w)) =
      Status 429 body"
  then show "get_soup_loop env cfg u retries rt attempt delay w =
        get_soup_loop env cfg u retries rt (Suc attempt) (delay * BACKOFF_FACTOR)
          (sleep (delay * BACKOFF_FACTOR)
             (snd (session_get env u (if 1 < attempt then smart_delay cfg (lit ''retry'') w else w))))"
    using loop_429_step by blast
next
  assume a: "\<forall>k. \<exists>body. http_get env' u' k = Status 429 body"
  show "get_soup env' cfg' u' retries' rt' w' =
        (Inr None,
         w'\<lparr>sent := sent w' + retries',
           trace := trace w' @
             concat (map (\<lambda>k. (if 0 < k then [SleepJitter (base_delay cfg' * 2)] else []) @
                               [Get u', Sleep (base_delay cfg' * BACKOFF_FACTOR ^ Suc k)])
                       [0..<retries'])\<rparr>)"
    unfolding get_soup_def
    using loop_all_429[OF a, where retries = retries' and attempt = 1 and n = retries'
      and cfg = cfg' and rt = rt' and delay = "base_delay cfg'" and w = w']
    by simp
qed

theorem get_soup_429_witness:
  "get_soup_loop (ex_env (\<lambda>u k. Status 429 [])) ex_cfg (lit ''u'') 2 (lit ''page'') 1 5 w0 =
     get_soup_loop (ex_env (\<lambda>u k. Status 429 [])) ex_cfg (lit ''u'') 2 (lit ''page'') 2 15
       \<lparr>sent = 1, trace = [Get (lit ''u''), Sleep 15], ics = None\<rparr> \<and>
   get_soup (ex_env (\<lambda>u k. Status 429 [])) ex_cfg (lit ''u'') 2 (lit ''page'') w0 =
     (Inr None,
      \<lparr>sent = 2,
       trace = [Get (lit ''u''), Sleep 15, SleepJitter 10, Get (lit ''u''), Sleep 45],
       ics = None\<rparr>)"
  using get_soup_429[where env = "ex_env (\<lambda>u k. Status 429 [])" and u = "lit ''u''"
      and cfg = ex_cfg and retries = 2 and rt = "lit ''page''" and w = w0 and attempt = 1
      and delay = 5 and body = "[]"
      and env' = "ex_env (\<lambda>u k. Status 429 [])" and u' = "lit ''u''" and cfg' = ex_cfg
      and retries' = 2 and rt' = "lit ''page''" and w' = w0]
  by (simp add: ex_env_def ex_cfg_def w0_def BACKOFF_FACTOR_def numeral_2_eq_2 session_get_def
      sleep_def)

text \<open>
  The claim as it was stated fails: with the default three attempts and a server that
  answers 429 every time, the loop is used up after three requests and the fetch returns
  the failure result.
\<close>

theorem get_soup_429_counterexample:
  "get_soup (ex_env (\<lambda>u k. Status 429 [])) ex_cfg (lit ''u'') MAX_RETRIES (lit ''page'') w0 =
     (Inr None,
      \<lparr>sent = 3,
       trace = [Get (lit ''u''), Sleep 15, SleepJitter 10, Get (lit ''u''), Sleep 45,
                SleepJitter 10, Get (lit ''u''), Sleep 135],
       ics = None\<rparr>)"
  by (simp add: get_soup_def get_soup_loop.simps MAX_RETRIES_def BACKOFF_FACTOR_def ex_env_def
      ex_cfg_def w0_def session_get_def sleep_def smart_delay_retry Let_def)

lemma loop_404:
  assumes "attempt \<le> retries"
    and "fst (session_get env u (if 1 < attempt then smart_delay cfg (lit ''retry'') w else w)) =
           Status 404 body"
  shows "get_soup_loop env cfg u retries rt attempt delay w =
      (Inr None, snd (session_get env u (if 1 < attempt then smart_delay cfg (lit ''retry'') w else w)))"
  using assms by (subst get_soup_loop.simps) (simp add: Let_def)

lemma loop_transient:
  assumes "\<forall>k. http_get env u k = Timeout \<or> http_get env u k = RequestException"
  shows "Suc retries - attempt = n \<Longrightarrow>
    fst (get_soup_loop env cfg u retries rt attempt delay w) = Inr None"
proof (induction n arbitrary: attempt delay w)
  case 0
  then have "retries < attempt" by simp
  then show ?case by (simp add: get_soup_loop.simps)
next
  case (Suc n)
  then have le: "\<not> retries < attempt" and n: "Suc retries - Suc attempt = n" by simp_all
  define w1 where "w1 = (if 1 < attempt then smart_delay cfg (lit ''retry'') w else w)"
  have "http_get env u (sent w1) = Timeout \<or> http_get env u (sent w1) = RequestException"
    using assms by blast
  then show ?case
    using le Suc.IH[OF n]
    by (subst get_soup_loop.simps) (auto simp add: w1_def session_get_def Let_def)
qed

text \<open>
  C4 (as amended). When the answer to an attempt is HTTP 404, the fetch returns at once:
  the state it returns is the state right after that request (no further request, no
  wait), and the value it returns is \<open>None\<close>. This is the same value that the fetch
  returns when every attempt ends in a timeout or another request error: the program has
  no separate not-found result.
\<close>

theorem get_soup_404:
  "(attempt \<le> retries \<and>
    fst (session_get env u (if 1 < attempt then smart_delay cfg (lit ''retry'') w else w)) =
      Status 404 body \<longrightarrow>
      get_soup_loop env cfg u retries rt attempt delay w =
        (Inr None,
         snd (session_get env u (if 1 < attempt then smart_delay cfg (lit ''retry'') w else w)))) \<and>
   ((\<forall>k. http_get env' u' k = Timeout \<or> http_get env' u' k = RequestException) \<longrightarrow>
      fst (get_soup env' cfg' u' retries' rt' w') = Inr None)"
  using loop_404 loop_transient unfolding get_soup_def by blast

theorem get_soup_404_witness:
  "get_soup (ex_env (\<lambda>u k. Status 404 [])) ex_cfg (lit ''u'') 3 (lit ''page'') w0 =
     (Inr None, \<lparr>sent = 1, trace = [Get (lit ''u'')], ics = None\<rparr>) \<and>
   fst (get_soup (ex_env (\<lambda>u k. Timeout)) ex_cfg (lit ''u'') 3 (lit ''page'') w0) = Inr None"
  using get_soup_404[where env = "ex_env (\<lambda>u k. Status 404 [])" and u = "lit ''u''"
      and cfg = ex_cfg and retries = 3 and rt = "lit ''page''" and w = w0 and attempt = 1
      and delay = "base_delay ex_cfg" and body = "[]"
      and env' = "ex_env (\<lambda>u k. Timeout)" and u' = "lit ''u''" and cfg' = ex_cfg and retries' = 3
      and rt' = "lit ''page''" and w' = w0]
  by (simp add: get_soup_def ex_env_def w0_def session_get_def)

text \<open>
  The claim as it was stated fails: the value returned for a 404 and the value returned
  after three timeouts are both \<open>None\<close>, so a caller cannot tell them apart.
\<close>

theorem get_soup_404_counterexample:
  "fst (get_soup (ex_env (\<lambda>u k. Status 404 [])) ex_cfg (lit ''u'') MAX_RETRIES (lit ''page'') w0) =
     Inr None \<and>
   fst (get_soup (ex_env (\<lambda>u k. Timeout)) ex_cfg (lit ''u'') MAX_RETRIES (lit ''page'') w0) =
     Inr None"
  by (simp add: get_soup_def get_soup_loop.simps MAX_RETRIES_def BACKOFF_FACTOR_def ex_env_def
      ex_cfg_def w0_def session_get_def sleep_def smart_delay_retry Let_def)


section \<open>Properties of the listing extractor and of the times\<close>

text \<open>The definitions that evaluate the program on the example inputs.\<close>

lemmas eval_simps =
  ex_env_def ex_cfg_def w0_def ex_net_def ex_parser_def ex_listing_def ex_short_def ex_detail_def
  ex_select_def ex_movie_def
  get_soup_def get_soup_loop.simps session_get_def sleep_def smart_delay_def Let_def
  MAX_RETRIES_def BACKOFF_FACTOR_def PAGE_DELAY_def DETAIL_DELAY_def
  parse_all_schedule_pages_def parse_pages_loop.simps base_schedule_url_def page_url_def
  extract_movie_data_from_schedule_def movie_selectors_def title_selectors_def
  element_movie_def select_one_def get_text_strip_def get_text_def strip_def is_space_def
  find_a_href_def find_all_a_href_def find_all_a_class_def element_times_def findall.simps
  search_def match1_def match2_def List.map_filter_def merge_page_def limit_reached_def
  slice_to_def check_next_page_exists_def movie_indicators_def strptime_HM_def hours_def
  minutes_def digit_def is_digit_def replace_dot_def seps_both_def seps_colon_def seps_dot_def
  lit_def

text \<open>
  C2. The claim holds on the link-scanning path, which tests the length of every title.
  On the container path it fails: the loop over the title selectors keeps a text of
  length 3 or less in \<^verbatim>\<open>title\<close> when no later selector gives a longer one, and the
  test after the loop only rejects an empty title. For a container whose only heading
  is \<^verbatim>\<open>Up\<close> the extractor returns a record with that title.
\<close>

theorem extract_keeps_short_title:
  "extract_movie_data_from_schedule (ex_env ex_net) ex_short =
     [\<lparr>title = lit ''Up'', url = None, times' = [], countries = [], nearest_show_date = None\<rparr>]"
  by (simp add: eval_simps)

lemma link_movie_title: "link_movie env l = Some mv \<Longrightarrow> 3 < length (title mv)"
  by (auto simp: link_movie_def Let_def split: if_splits)

lemma digit_value_le: "digit_value zs c = Some v \<Longrightarrow> v \<le> 9"
  by (induction zs) (auto split: if_splits)

lemma digit_le: "digit z c = Some v \<Longrightarrow> v \<le> 9"
  unfolding digit_def by (rule digit_value_le)

lemma digit_le': "Some v = digit z c \<Longrightarrow> v \<le> 9"
  using digit_le[of z c v] by simp

lemma hours_le: "(h, r) \<in> set (hours z s) \<Longrightarrow> h \<le> 23"
  by (auto simp: hours_def split: list.splits option.splits if_splits dest!: digit_le digit_le')

lemma minutes_le: "(m, r) \<in> set (minutes z s) \<Longrightarrow> m \<le> 59"
  by (auto simp: minutes_def split: list.splits option.splits if_splits dest!: digit_le digit_le')

lemma strptime_HM_range:
  assumes "strptime_HM z s = Some (h, m)"
  shows "h \<le> 23 \<and> m \<le> 59"
proof -
  define alts where "alts = concat (map (\<lambda>(h, r).
              (case r of
                 c # r' \<Rightarrow> if c = 58 then map (\<lambda>(m, r''). (h, m, r'')) (minutes z r') else []
               | [] \<Rightarrow> [])) (hours z s))"
  from assms have "(h, m, []) \<in> set alts"
    unfolding strptime_HM_def alts_def[symmetric]
    by (auto split: list.splits if_splits)
  then obtain r r' where "(h, r) \<in> set (hours z s)" and "(m, []) \<in> set (minutes z r')"
    unfolding alts_def by (auto split: list.splits if_splits)
  then show ?thesis using hours_le minutes_le by blast
qed

lemma digit_ascii: "b \<le> 9 \<Longrightarrow> digit z (48 + b) = Some b"
  by (simp add: digit_def)

lemma strptime_ascii1:
  assumes "b \<le> 9" "c \<le> 5" "d \<le> 9"
  shows "strptime_HM z [48 + b, 58, 48 + c, 48 + d] = Some (b, 10 * c + d)"
  using assms
  by (cases "digit z 58") (auto simp: strptime_HM_def hours_def minutes_def digit_ascii)

lemma strptime_ascii2:
  assumes "a \<le> 2" "b \<le> 9" "c \<le> 5" "d \<le> 9" "10 * a + b \<le> 23"
  shows "strptime_HM z [48 + a, 48 + b, 58, 48 + c, 48 + d] = Some (10 * a + b, 10 * c + d)"
proof -
  from assms(1) consider "a = 0" | "a = 1" | "a = 2" by linarith
  then show ?thesis
    using assms
    by cases (auto simp: strptime_HM_def hours_def minutes_def digit_ascii)
qed

lemma set_add_times:
  "set (add_times z ms tms) =
     set tms \<union> {replace_dot m | m. m \<in> set ms \<and> strptime_HM z (replace_dot m) \<noteq> None}"
  by (induction ms arbitrary: tms) (auto simp: Let_def split: option.splits)

lemma set_element_times:
  "set (element_times z text) =
     {replace_dot m | m.
        (m \<in> set (findall z seps_both text) \<or> m \<in> set (findall z seps_colon text) \<or>
         m \<in> set (findall z seps_dot text)) \<and> strptime_HM z (replace_dot m) \<noteq> None}"
  unfolding element_times_def set_add_times by auto

lemma distinct_add_times: "distinct tms \<Longrightarrow> distinct (add_times z ms tms)"
  by (induction ms arbitrary: tms) (auto simp: Let_def split: option.splits)

lemma add_elem_times_valid:
  "set (add_elem_times z es tms) \<subseteq> set tms \<union> {t. strptime_HM z t \<noteq> None}"
proof (induction es arbitrary: tms)
  case Nil
  show ?case by simp
next
  case (Cons e es)
  show ?case
    using Cons.IH[of tms] Cons.IH[of "tms @ [replace_dot (the (search z seps_both (get_text_strip e)))]"]
    by (auto simp: Let_def split: option.splits)
qed

lemma add_page_times_valid:
  "set (add_page_times z ms tms) \<subseteq> set tms \<union> {t. strptime_HM z t \<noteq> None}"
proof (induction ms arbitrary: tms)
  case Nil
  show ?case by simp
next
  case (Cons m ms)
  show ?case
    using Cons.IH[of tms] Cons.IH[of "tms @ [replace_dot m]"]
    by (auto simp: Let_def split: option.splits)
qed

lemma parse_showtimes_valid:
  "t \<in> set (parse_showtimes_from_page env soup) \<Longrightarrow> strptime_HM (zeros env) t \<noteq> None"
  unfolding parse_showtimes_from_page_def Let_def
  using add_elem_times_valid[where tms = "[]" and z = "zeros env"]
    add_page_times_valid[where tms = "[]" and z = "zeros env"]
  by (fastforce split: if_splits)

lemma element_movie_times:
  "element_movie env e = Some mv \<Longrightarrow> times' mv = element_times (zeros env) (get_text e)"
  by (auto simp: element_movie_def split: option.splits if_splits)

lemma link_movie_times: "link_movie env l = Some mv \<Longrightarrow> times' mv = []"
  by (auto simp: link_movie_def Let_def split: if_splits)

lemma extract_times_valid:
  assumes "mv \<in> set (extract_movie_data_from_schedule env soup)" and "t \<in> set (times' mv)"
  shows "strptime_HM (zeros env) t \<noteq> None"
proof -
  from assms(1) consider l where "link_movie env l = Some mv" | e where "element_movie env e = Some mv"
    unfolding extract_movie_data_from_schedule_def Let_def
    by (auto simp: List.map_filter_def split: if_splits)
  then show ?thesis
  proof cases
    case 1 with assms(2) show ?thesis by (simp add: link_movie_times)
  next
    case 2
    with assms(2) have "t \<in> set (element_times (zeros env) (get_text e))"
      by (simp add: element_movie_times)
    then show ?thesis unfolding set_element_times by auto
  qed
qed

lemma set_merge_details_times:
  "set (times' (merge_details mv details)) = set (times' mv) \<union> set (snd (snd details))"
  by (simp add: merge_details_def Let_def)

text \<open>
  C3 (as amended). A string is in the times list of a container exactly when it is a
  match of one of the three patterns in the container's text, with \<^verbatim>\<open>.\<close> replaced by
  \<^verbatim>\<open>:\<close>, that the strict parse \<^verbatim>\<open>%H:%M\<close> accepts; it is kept as it was matched (no
  zero is put before a one-digit hour), once. The strict parse accepts every match
  written with ASCII digits whose hour is at most 23 and whose minute is at most 59,
  and whatever it accepts has an hour of at most 23 and a minute of at most 59. So every
  string in a times list of the listing extractor, of the detail page and of the merged
  record is a valid 24-hour time, and \<^verbatim>\<open>25:61\<close> is in none of them.
\<close>

theorem times_valid_not_padded:
  "(t \<in> set (element_times z element_text) \<longleftrightarrow>
      (\<exists>m. (m \<in> set (findall z seps_both element_text) \<or>
            m \<in> set (findall z seps_colon element_text) \<or>
            m \<in> set (findall z seps_dot element_text)) \<and>
           t = replace_dot m \<and> strptime_HM z t \<noteq> None)) \<and>
   distinct (element_times z element_text) \<and>
   (b \<le> 9 \<and> c \<le> 5 \<and> d \<le> 9 \<longrightarrow>
      strptime_HM z [48 + b, 58, 48 + c, 48 + d] = Some (b, 10 * c + d)) \<and>
   (a \<le> 2 \<and> b \<le> 9 \<and> 10 * a + b \<le> 23 \<and> c \<le> 5 \<and> d \<le> 9 \<longrightarrow>
      strptime_HM z [48 + a, 48 + b, 58, 48 + c, 48 + d] = Some (10 * a + b, 10 * c + d)) \<and>
   (strptime_HM z s = Some (h, mi) \<longrightarrow> h \<le> 23 \<and> mi \<le> 59) \<and>
   (\<forall>mv \<in> set (extract_movie_data_from_schedule env soup).
      \<forall>t' \<in> set (times' mv). strptime_HM (zeros env) t' \<noteq> None) \<and>
   (\<forall>t' \<in> set (parse_showtimes_from_page env detail_soup).
      strptime_HM (zeros env) t' \<noteq> None) \<and>
   set (times' (merge_details movie_data details)) =
     set (times' movie_data) \<union> set (snd (snd details)) \<and>
   strptime_HM z (lit ''25:61'') = None"
proof (intro conjI)
  show "t \<in> set (element_times z element_text) \<longleftrightarrow>
      (\<exists>m. (m \<in> set (findall z seps_both element_text) \<or>
            m \<in> set (findall z seps_colon element_text) \<or>
            m \<in> set (findall z seps_dot element_text)) \<and>
           t = replace_dot m \<and> strptime_HM z t \<noteq> None)"
    unfolding set_element_times by auto
  show "distinct (element_times z element_text)"
    unfolding element_times_def by (rule distinct_add_times) simp
  show "b \<le> 9 \<and> c \<le> 5 \<and> d \<le> 9 \<longrightarrow>
      strptime_HM z [48 + b, 58, 48 + c, 48 + d] = Some (b, 10 * c + d)"
    using strptime_ascii1 by blast
  show "a \<le> 2 \<and> b \<le> 9 \<and> 10 * a + b \<le> 23 \<and> c \<le> 5 \<and> d \<le> 9 \<longrightarrow>
      strptime_HM z [48 + a, 48 + b, 58, 48 + c, 48 + d] = Some (10 * a + b, 10 * c + d)"
    using strptime_ascii2 by blast
  show "strptime_HM z s = Some (h, mi) \<longrightarrow> h \<le> 23 \<and> mi \<le> 59"
    using strptime_HM_range by blast
  show "\<forall>mv \<in> set (extract_movie_data_from_schedule env soup).
      \<forall>t' \<in> set (times' mv). strptime_HM (zeros env) t' \<noteq> None"
    using extract_times_valid by blast
  show "\<forall>t' \<in> set (parse_showtimes_from_page env detail_soup).
      strptime_HM (zeros env) t' \<noteq> None"
    using parse_showtimes_valid by blast
  show "set (times' (merge_details movie_data details)) =
     set (times' movie_data) \<union> set (snd (snd details))"
    by (rule set_merge_details_times)
  show "strptime_HM z (lit ''25:61'') = None"
    by (simp add: strptime_HM_def hours_def minutes_def lit_def digit_def split: option.splits)
qed

theorem times_valid_not_padded_witness:
  "lit ''9:30'' \<in> set (element_times [] (lit '' 9.30 25:61 10:00'')) \<and>
   lit ''25:61'' \<notin> set (element_times [] (lit '' 9.30 25:61 10:00'')) \<and>
   strptime_HM [] (lit ''3:59'') = Some (3, 59) \<and>
   strptime_HM [] (lit ''23:59'') = Some (23, 59) \<and>
   map times' (extract_movie_data_from_schedule (ex_env ex_net) ex_listing) =
     [[], [lit ''9:30'', lit ''10:00''], [], []] \<and>
   parse_showtimes_from_page (ex_env ex_net) ex_detail = [lit ''21:15'']"
  using times_valid_not_padded[where z = "[]" and element_text = "lit '' 9.30 25:61 10:00''"
      and t = "lit ''9:30''" and a = 2 and b = 3 and c = 5 and d = 9 and s = "lit ''23:59''"
      and h = 23 and mi = 59 and env = "ex_env ex_net" and soup = ex_listing
      and detail_soup = ex_detail]
  by (simp add: eval_simps parse_showtimes_from_page_def time_selectors_def)

text \<open>
  The claim as it was stated fails: the second container of the example listing has the
  match \<^verbatim>\<open>9.30\<close> in its text, and its times list holds \<^verbatim>\<open>9:30\<close>, not the
  zero-padded \<^verbatim>\<open>09:30\<close>.
\<close>

theorem times_not_padded_counterexample:
  "map times' (extract_movie_data_from_schedule (ex_env ex_net) ex_listing) =
     [[], [lit ''9:30'', lit ''10:00''], [], []] \<and>
   lit ''09:30'' \<notin>
     set (concat (map times' (extract_movie_data_from_schedule (ex_env ex_net) ex_listing)))"
  by (simp add: eval_simps)

section \<open>Properties of the pagination controller\<close>

lemma find_append:
  "find P (xs @ ys) = (case find P xs of Some x \<Rightarrow> Some x | None \<Rightarrow> find P ys)"
  by (induction xs) auto

lemma first_seen_inv_new:
  assumes "first_seen_inv al seen" and "title mv \<notin> set (map title al)"
  shows "first_seen_inv (al @ [mv]) (seen @ [mv])"
proof -
  from assms have "title mv \<notin> set (map title seen)"
    unfolding first_seen_inv_def by metis
  then have none: "find (\<lambda>x. title x = title mv) seen = None"
    unfolding find_None_iff by (metis imageI list.set_map)
  show ?thesis
    using assms none unfolding first_seen_inv_def
    by (auto simp: find_append split: option.splits)
qed

lemma first_seen_inv_old:
  assumes "first_seen_inv al seen" and "title mv \<in> set (map title al)"
  shows "first_seen_inv al (seen @ [mv])"
  using assms unfolding first_seen_inv_def
  by (auto simp: find_append split: option.splits)

lemma add_new_inv:
  "first_seen_inv al seen \<Longrightarrow>
   first_seen_inv (add_new page al (set (map title al))) (seen @ page)"
proof (induction page arbitrary: al seen)
  case Nil
  then show ?case by simp
next
  case (Cons mv page)
  show ?case
  proof (cases "title mv \<in> set (map title al)")
    case True
    from Cons.IH[OF first_seen_inv_old[OF Cons.prems True]] True show ?thesis by simp
  next
    case False
    from Cons.IH[OF first_seen_inv_new[OF Cons.prems False]] False show ?thesis by simp
  qed
qed

lemma merge_page_inv:
  "first_seen_inv al seen \<Longrightarrow> first_seen_inv (merge_page al page) (seen @ page)"
  unfolding merge_page_def by (rule add_new_inv)

lemma foldl_merge_inv:
  "first_seen_inv al seen \<Longrightarrow> first_seen_inv (foldl merge_page al pages) (seen @ concat pages)"
proof (induction pages arbitrary: al seen)
  case Nil
  then show ?case by simp
next
  case (Cons page pages)
  from Cons.IH[OF merge_page_inv[OF Cons.prems, of page]] show ?case by simp
qed

lemma add_new_prefix: "prefix al (add_new page al E)"
proof (induction page arbitrary: al E)
  case Nil
  show ?case by simp
next
  case (Cons mv page)
  show ?case
    using Cons.IH[of "al @ [mv]" "insert (title mv) E"] Cons.IH[of al E]
    by (auto dest: append_prefixD)
qed

lemma add_new_distinct:
  "distinct (map title al) \<Longrightarrow> distinct (map title (add_new page al (set (map title al))))"
proof (induction page arbitrary: al)
  case Nil
  then show ?case by simp
next
  case (Cons mv page)
  show ?case
  proof (cases "title mv \<in> set (map title al)")
    case True
    with Cons show ?thesis by simp
  next
    case False
    with Cons.prems have "distinct (map title (al @ [mv]))" by simp
    from Cons.IH[OF this] False show ?thesis by simp
  qed
qed

lemma merge_page_distinct:
  "distinct (map title al) \<Longrightarrow> distinct (map title (merge_page al page))"
  unfolding merge_page_def by (rule add_new_distinct)

lemma slice_to_distinct: "distinct (map title xs) \<Longrightarrow> distinct (map title (slice_to xs n))"
  by (simp add: slice_to_def take_map[symmetric])

lemma limit_reached_distinct:
  "limit_reached cfg xs = Some ys \<Longrightarrow> distinct (map title xs) \<Longrightarrow> distinct (map title ys)"
  by (auto simp: limit_reached_def slice_to_distinct split: option.splits if_splits)

lemma parse_pages_loop_distinct:
  "Suc (max_pages cfg) - p = n \<Longrightarrow> distinct (map title al) \<Longrightarrow>
   fst (parse_pages_loop env cfg base p al w) = Inr R \<Longrightarrow> distinct (map title R)"
proof (induction n arbitrary: p al w)
  case 0
  then have "max_pages cfg < p" by simp
  with 0 show ?case by (simp add: parse_pages_loop.simps)
next
  case (Suc n)
  then have n: "Suc (max_pages cfg) - Suc p = n" by simp
  have rec: "\<forall>m w'. fst (parse_pages_loop env cfg base (Suc p) m w') = Inr R \<longrightarrow>
      distinct (map title m) \<longrightarrow> distinct (map title R)"
    using Suc.IH[OF n] by blast
  note merge_page_distinct[OF Suc.prems(2), simp]
  from Suc.prems(3) Suc.prems(2) rec show ?case
    apply (subst (asm) parse_pages_loop.simps)
    apply (auto simp: Let_def split: if_splits sum.splits option.splits
        dest: limit_reached_distinct)
    done
qed

lemma parse_pages_loop_fold:
  assumes "max_movies cfg = None"
  shows "Suc (max_pages cfg) - p = n \<Longrightarrow>
   fst (parse_pages_loop env cfg base p al w) = Inr R \<Longrightarrow>
   \<exists>pages. R = foldl merge_page al pages \<and>
      (\<forall>pg \<in> set pages. pg \<noteq> [] \<and> (\<exists>soup. pg = extract_movie_data_from_schedule env soup))"
proof (induction n arbitrary: p al w)
  case 0
  then have "max_pages cfg < p" by simp
  with 0 have "R = foldl merge_page al []" by (simp add: parse_pages_loop.simps)
  then show ?case by (intro exI[of _ "[]"]) simp
next
  case (Suc n)
  then have n: "Suc (max_pages cfg) - Suc p = n" by simp
  let ?P = "\<lambda>al pages. R = foldl merge_page al pages \<and>
      (\<forall>pg \<in> set pages. pg \<noteq> [] \<and> (\<exists>soup. pg = extract_movie_data_from_schedule env soup))"
  define G where "G \<longleftrightarrow> (\<exists>pages. ?P al pages)"
  have lim: "\<And>xs. limit_reached cfg xs = None" using assms by (simp add: limit_reached_def)
  have stop: "R = al \<longrightarrow> G"
    unfolding G_def by (auto intro: exI[of _ "[]"])
  have one: "\<forall>soup. R = merge_page al (extract_movie_data_from_schedule env soup) \<longrightarrow>
      extract_movie_data_from_schedule env soup \<noteq> [] \<longrightarrow> G"
    unfolding G_def
    by (intro allI impI, rule_tac x = "[extract_movie_data_from_schedule env soup]" in exI) auto
  have more: "\<forall>soup w'.
      fst (parse_pages_loop env cfg base (Suc p)
             (merge_page al (extract_movie_data_from_schedule env soup)) w') = Inr R \<longrightarrow>
      extract_movie_data_from_schedule env soup \<noteq> [] \<longrightarrow> G"
  proof (intro allI impI)
    fix soup w'
    assume a: "fst (parse_pages_loop env cfg base (Suc p)
             (merge_page al (extract_movie_data_from_schedule env soup)) w') = Inr R"
      and b: "extract_movie_data_from_schedule env soup \<noteq> []"
    from Suc.IH[OF n a] obtain pages where
      "?P (merge_page al (extract_movie_data_from_schedule env soup)) pages" by blast
    with b show G
      unfolding G_def
      by (intro exI[of _ "extract_movie_data_from_schedule env soup # pages"]) auto
  qed
  from Suc.prems(2) stop one more have G
    apply (subst (asm) parse_pages_loop.simps)
    apply (auto simp: Let_def lim split: sum.splits option.splits if_splits)
    done
  then show ?case unfolding G_def .
qed

text \<open>
  C6. Merging any sequence of pages into the empty collection gives a collection whose
  titles are distinct, are exactly the titles of the pages, and stand in the order in
  which they were first seen; the record kept for a title is the first record with that
  title, and a merge only appends to the collection. The collection that
  \<open>parse_all_schedule_pages\<close> returns always has distinct titles, and without an item
  limit it is such a merge of the pages the run extracted.
\<close>

theorem merge_keeps_first_seen:
  "distinct (map title (foldl merge_page [] pages)) \<and>
   set (map title (foldl merge_page [] pages)) = set (map title (concat pages)) \<and>
   map title (foldl merge_page [] pages) = rev (remdups (rev (map title (concat pages)))) \<and>
   (\<forall>mv \<in> set (foldl merge_page [] pages).
      find (\<lambda>x. title x = title mv) (concat pages) = Some mv) \<and>
   prefix al (merge_page al page) \<and>
   (fst (parse_all_schedule_pages env cfg base_url w) = Inr R \<longrightarrow> distinct (map title R)) \<and>
   (max_movies cfg = None \<and> fst (parse_all_schedule_pages env cfg base_url w) = Inr R \<longrightarrow>
      (\<exists>merged_pages. R = foldl merge_page [] merged_pages \<and>
         (\<forall>pg \<in> set merged_pages.
            pg \<noteq> [] \<and> (\<exists>soup. pg = extract_movie_data_from_schedule env soup))))"
proof -
  have "first_seen_inv [] []" by (simp add: first_seen_inv_def)
  from foldl_merge_inv[OF this, of pages]
  have inv: "first_seen_inv (foldl merge_page [] pages) (concat pages)" by simp
  have a: "distinct (map title (foldl merge_page [] pages))"
    and b: "set (map title (foldl merge_page [] pages)) = set (map title (concat pages))"
    and c: "map title (foldl merge_page [] pages) = rev (remdups (rev (map title (concat pages))))"
    and d: "\<forall>mv \<in> set (foldl merge_page [] pages).
      find (\<lambda>x. title x = title mv) (concat pages) = Some mv"
    using inv unfolding first_seen_inv_def by blast+
  have e: "prefix al (merge_page al page)"
    unfolding merge_page_def by (rule add_new_prefix)
  have f: "fst (parse_all_schedule_pages env cfg base_url w) = Inr R \<longrightarrow> distinct (map title R)"
    unfolding parse_all_schedule_pages_def
    using parse_pages_loop_distinct[where cfg = cfg and p = 1 and al = "[]" and n = "max_pages cfg"
        and env = env and base = base_url and w = w and R = R]
    by simp
  have g: "max_movies cfg = None \<and> fst (parse_all_schedule_pages env cfg base_url w) = Inr R \<longrightarrow>
      (\<exists>merged_pages. R = foldl merge_page [] merged_pages \<and>
         (\<forall>pg \<in> set merged_pages.
            pg \<noteq> [] \<and> (\<exists>soup. pg = extract_movie_data_from_schedule env soup)))"
    unfolding parse_all_schedule_pages_def
    using parse_pages_loop_fold[where cfg = cfg and p = 1 and al = "[]" and n = "max_pages cfg"
        and env = env and base = base_url and w = w and R = R]
    by simp
  from a b c d e f g show ?thesis by blast
qed

theorem merge_keeps_first_seen_witness:
  "foldl merge_page []
     [[ex_movie ''Alien'' [], ex_movie ''Dune'' [''9:30'']],
      [ex_movie ''Dune'' [], ex_movie ''Heat'' [], ex_movie ''Alien'' [''1:00'']]] =
     [ex_movie ''Alien'' [], ex_movie ''Dune'' [''9:30''], ex_movie ''Heat'' []] \<and>
   parse_all_schedule_pages (ex_env ex_net) ex_cfg base_schedule_url w0 =
     (Inr [ex_movie ''Alien'' [], ex_movie ''Dune'' [''9:30'', ''10:00''], ex_movie ''Heat'' []],
      \<lparr>sent = 2,
       trace = [Get base_schedule_url, SleepJitter 8, Get (page_url base_schedule_url 2)],
       ics = None\<rparr>)"
proof -
  note fact = merge_keeps_first_seen[where env = "ex_env ex_net" and cfg = ex_cfg
      and base_url = base_schedule_url and w = w0
      and R = "[ex_movie ''Alien'' [], ex_movie ''Dune'' [''9:30'', ''10:00''], ex_movie ''Heat'' []]"
      and pages = "[[ex_movie ''Alien'' [], ex_movie ''Dune'' [''9:30'']],
                    [ex_movie ''Dune'' [], ex_movie ''Heat'' [], ex_movie ''Alien'' [''1:00'']]]"]
  have a: "foldl merge_page []
     [[ex_movie ''Alien'' [], ex_movie ''Dune'' [''9:30'']],
      [ex_movie ''Dune'' [], ex_movie ''Heat'' [], ex_movie ''Alien'' [''1:00'']]] =
     [ex_movie ''Alien'' [], ex_movie ''Dune'' [''9:30''], ex_movie ''Heat'' []]"
    by (simp add: merge_page_def ex_movie_def lit_def)
  have b: "parse_all_schedule_pages (ex_env ex_net) ex_cfg base_schedule_url w0 =
     (Inr [ex_movie ''Alien'' [], ex_movie ''Dune'' [''9:30'', ''10:00''], ex_movie ''Heat'' []],
      \<lparr>sent = 2,
       trace = [Get base_schedule_url, SleepJitter 8, Get (page_url base_schedule_url 2)],
       ics = None\<rparr>)"
    by (simp add: eval_simps)
  from fact have "distinct (map title [ex_movie ''Alien'' [], ex_movie ''Dune'' [''9:30''], ex_movie ''Heat'' []])"
    unfolding a by blast
  with a b show ?thesis by blast
qed

lemma limit_reached_pos:
  "max_movies cfg = Some n \<Longrightarrow> 0 < n \<Longrightarrow> n \<le> int (length xs) \<Longrightarrow>
   limit_reached cfg xs = Some (take (nat n) xs)"
  by (simp add: limit_reached_def slice_to_def)

lemma limit_reached_length:
  "limit_reached cfg xs = Some ys \<Longrightarrow> max_movies cfg = Some n \<Longrightarrow> 0 < n \<Longrightarrow> length ys = nat n"
  by (auto simp: limit_reached_def slice_to_def split: if_splits)

lemma limit_reached_None:
  "limit_reached cfg xs = None \<Longrightarrow> max_movies cfg = Some n \<Longrightarrow> 0 < n \<Longrightarrow> length xs < nat n"
  by (auto simp: limit_reached_def split: if_splits)

lemma parse_pages_loop_limit:
  assumes "current_page \<le> max_pages cfg"
    and "fst (get_soup env cfg (if current_page = 1 then base_url else page_url base_url current_page)
            MAX_RETRIES (lit ''page'') w) = Inr (Some soup)"
    and "extract_movie_data_from_schedule env soup \<noteq> []"
    and "max_movies cfg = Some n" and "0 < n"
    and "n \<le> int (length (merge_page al (extract_movie_data_from_schedule env soup)))"
  shows "parse_pages_loop env cfg base_url current_page al w =
     (Inr (take (nat n) (merge_page al (extract_movie_data_from_schedule env soup))),
      snd (get_soup env cfg (if current_page = 1 then base_url else page_url base_url current_page)
            MAX_RETRIES (lit ''page'') w))"
  using assms(1,2,3) limit_reached_pos[OF assms(4,5,6)]
  by (subst parse_pages_loop.simps) (simp add: Let_def)

lemma parse_pages_loop_bound:
  assumes "max_movies cfg = Some k" and "0 < k"
  shows "Suc (max_pages cfg) - p = n \<Longrightarrow> length al \<le> nat k \<Longrightarrow>
   fst (parse_pages_loop env cfg base p al w) = Inr R \<Longrightarrow> length R \<le> nat k"
proof (induction n arbitrary: p al w)
  case 0
  then have "max_pages cfg < p" by simp
  with 0 show ?case by (simp add: parse_pages_loop.simps)
next
  case (Suc n)
  then have n: "Suc (max_pages cfg) - Suc p = n" by simp
  have rec: "\<forall>m w'. fst (parse_pages_loop env cfg base (Suc p) m w') = Inr R \<longrightarrow>
      length m \<le> nat k \<longrightarrow> length R \<le> nat k"
    using Suc.IH[OF n] by blast
  have lim: "\<And>xs ys. limit_reached cfg xs = Some ys \<Longrightarrow> length ys \<le> nat k"
    using limit_reached_length[OF _ assms] by simp
  have nolim: "\<And>xs. limit_reached cfg xs = None \<Longrightarrow> length xs \<le> nat k"
    using limit_reached_None[OF _ assms] by (simp add: less_imp_le)
  from Suc.prems(3) Suc.prems(2) rec show ?case
    apply (subst (asm) parse_pages_loop.simps)
    apply (auto simp: Let_def split: if_splits sum.splits option.splits dest: lim nolim)
    done
qed

text \<open>
  C7 (as amended). When \<^verbatim>\<open>MAX_MOVIES\<close> is a positive number \<open>n\<close> and the collection has
  \<open>n\<close> or more entries after the merge of a page, the loop returns at once with the first
  \<open>n\<close> entries of the merged collection, which are exactly \<open>n\<close>, in the state right after
  the fetch of that page: no further page is fetched or probed. So with a positive limit
  \<open>n\<close> the collection a run returns never has more than \<open>n\<close> entries.
\<close>

theorem limit_truncates_and_stops:
  "(current_page \<le> max_pages cfg \<and>
    fst (get_soup env cfg (if current_page = 1 then base_url else page_url base_url current_page)
           MAX_RETRIES (lit ''page'') w) = Inr (Some soup) \<and>
    extract_movie_data_from_schedule env soup \<noteq> [] \<and>
    max_movies cfg = Some n \<and> 0 < n \<and>
    n \<le> int (length (merge_page al (extract_movie_data_from_schedule env soup))) \<longrightarrow>
      parse_pages_loop env cfg base_url current_page al w =
        (Inr (take (nat n) (merge_page al (extract_movie_data_from_schedule env soup))),
         snd (get_soup env cfg
                (if current_page = 1 then base_url else page_url base_url current_page)
                MAX_RETRIES (lit ''page'') w)) \<and>
      length (take (nat n) (merge_page al (extract_movie_data_from_schedule env soup))) = nat n) \<and>
   (max_movies cfg = Some n \<and> 0 < n \<and>
    fst (parse_all_schedule_pages env cfg base_url w) = Inr R \<longrightarrow> length R \<le> nat n)"
proof (intro conjI impI)
  assume a: "current_page \<le> max_pages cfg \<and>
    fst (get_soup env cfg (if current_page = 1 then base_url else page_url base_url current_page)
           MAX_RETRIES (lit ''page'') w) = Inr (Some soup) \<and>
    extract_movie_data_from_schedule env soup \<noteq> [] \<and>
    max_movies cfg = Some n \<and> 0 < n \<and>
    n \<le> int (length (merge_page al (extract_movie_data_from_schedule env soup)))"
  then show "parse_pages_loop env cfg base_url current_page al w =
        (Inr (take (nat n) (merge_page al (extract_movie_data_from_schedule env soup))),
         snd (get_soup env cfg
                (if current_page = 1 then base_url else page_url base_url current_page)
                MAX_RETRIES (lit ''page'') w))"
    using parse_pages_loop_limit by blast
  from a have "nat n \<le> length (merge_page al (extract_movie_data_from_schedule env soup))"
    by linarith
  then show "length (take (nat n) (merge_page al (extract_movie_data_from_schedule env soup))) = nat n"
    by simp
next
  assume "max_movies cfg = Some n \<and> 0 < n \<and>
    fst (parse_all_schedule_pages env cfg base_url w) = Inr R"
  then show "length R \<le> nat n"
    unfolding parse_all_schedule_pages_def
    using parse_pages_loop_bound[where cfg = cfg and k = n and p = 1 and al = "[]"
        and n = "max_pages cfg" and env = env and base = base_url and w = w and R = R]
    by simp
qed

theorem limit_truncates_and_stops_witness:
  "parse_all_schedule_pages (ex_env ex_net) (ex_cfg\<lparr>max_movies := Some 2\<rparr>) base_schedule_url w0 =
     (Inr [ex_movie ''Alien'' [], ex_movie ''Dune'' [''9:30'', ''10:00'']],
      \<lparr>sent = 1, trace = [Get base_schedule_url, SleepJitter 8], ics = None\<rparr>)"
proof -
  have run: "parse_all_schedule_pages (ex_env ex_net) (ex_cfg\<lparr>max_movies := Some 2\<rparr>) base_schedule_url w0 =
     (Inr [ex_movie ''Alien'' [], ex_movie ''Dune'' [''9:30'', ''10:00'']],
      \<lparr>sent = 1, trace = [Get base_schedule_url, SleepJitter 8], ics = None\<rparr>)"
    by (simp add: eval_simps)
  have page: "get_soup (ex_env ex_net) (ex_cfg\<lparr>max_movies := Some 2\<rparr>) base_schedule_url MAX_RETRIES
      (lit ''page'') w0 =
     (Inr (Some ex_listing), \<lparr>sent = 1, trace = [Get base_schedule_url, SleepJitter 8], ics = None\<rparr>)"
    by (simp add: eval_simps)
  have movies: "merge_page [] (extract_movie_data_from_schedule (ex_env ex_net) ex_listing) =
     [ex_movie ''Alien'' [], ex_movie ''Dune'' [''9:30'', ''10:00''], ex_movie ''Heat'' []]"
    by (simp add: eval_simps)
  have found: "extract_movie_data_from_schedule (ex_env ex_net) ex_listing \<noteq> []"
    by (simp add: eval_simps)
  have "parse_pages_loop (ex_env ex_net) (ex_cfg\<lparr>max_movies := Some 2\<rparr>) base_schedule_url 1 [] w0 =
     (Inr (take (nat 2) [ex_movie ''Alien'' [], ex_movie ''Dune'' [''9:30'', ''10:00''], ex_movie ''Heat'' []]),
      \<lparr>sent = 1, trace = [Get base_schedule_url, SleepJitter 8], ics = None\<rparr>)"
    using limit_truncates_and_stops[where env = "ex_env ex_net" and cfg = "ex_cfg\<lparr>max_movies := Some 2\<rparr>"
      and base_url = base_schedule_url and current_page = 1 and al = "[]" and w = w0
      and soup = ex_listing and n = 2] page movies found
    by (simp add: ex_cfg_def)
  moreover have "length [ex_movie ''Alien'' [], ex_movie ''Dune'' [''9:30'', ''10:00'']] \<le> nat 2"
    using limit_truncates_and_stops[where env = "ex_env ex_net" and cfg = "ex_cfg\<lparr>max_movies := Some 2\<rparr>"
      and base_url = base_schedule_url and w = w0 and n = 2
      and R = "[ex_movie ''Alien'' [], ex_movie ''Dune'' [''9:30'', ''10:00'']]"] run
    by (simp add: ex_cfg_def)
  ultimately show ?thesis using run by simp
qed

text \<open>
  The claim as it was stated fails for the limit 0, which the test
  \<^verbatim>\<open>if MAX_MOVIES and ...\<close> treats like no limit: the three movies of the example
  listing are all kept, and the run goes on to probe the second page.
\<close>

theorem limit_zero_counterexample:
  "parse_all_schedule_pages (ex_env ex_net) (ex_cfg\<lparr>max_movies := Some 0\<rparr>) base_schedule_url w0 =
     (Inr [ex_movie ''Alien'' [], ex_movie ''Dune'' [''9:30'', ''10:00''], ex_movie ''Heat'' []],
      \<lparr>sent = 2,
       trace = [Get base_schedule_url, SleepJitter 8, Get (page_url base_schedule_url 2)],
       ics = None\<rparr>)"
  by (simp add: eval_simps)

section \<open>Properties of the detail page\<close>

lemma collect_dates_eq:
  "collect_dates env now links acc = acc @ List.map_filter (link_date env now) links"
  by (induction links arbitrary: acc) (auto simp: List.map_filter_simps split: option.splits)

lemma set_map_filter: "set (List.map_filter f xs) = {y. \<exists>x \<in> set xs. f x = Some y}"
  by (force simp: List.map_filter_def image_iff)

lemma sort_head_Min:
  fixes ds :: "'a::linorder list"
  shows "(case sort ds of [] \<Rightarrow> None | d # rest \<Rightarrow> Some d) =
    (if set ds = {} then None else Some (Min (set ds)))"
proof (cases "sort ds")
  case Nil
  then have "ds = []" by (metis length_0_conv length_sort)
  with Nil show ?thesis by simp
next
  case (Cons d rest)
  have "sorted (sort ds)" by simp
  then have s: "sorted (d # rest)" using Cons by simp
  have "set (sort ds) = set ds" by simp
  then have e: "set ds = set (d # rest)" using Cons by simp
  have "Min (set ds) = d"
    unfolding e using s by (intro Min_eqI) auto
  with Cons e show ?thesis by auto
qed

lemma parse_schedule_calendar_eq:
  "parse_schedule_calendar env now soup =
     (case find_widget env soup calendar_selectors of
        None \<Rightarrow> None
      | Some calendar_widget \<Rightarrow>
          (let D = {d. \<exists>link \<in> set (find_all_a_class (lit ''pdT6c'') calendar_widget).
                          link_date env now link = Some d}
           in if D = {} then None else Some (Min D)))"
  unfolding parse_schedule_calendar_def Let_def collect_dates_eq append_Nil sort_head_Min
    set_map_filter
  by (simp split: option.splits)

lemma link_date_valid:
  "link_date env now link = Some (y, m, d) \<Longrightarrow> 1 \<le> d \<and> d \<le> days_in_month y m"
  by (auto simp: link_date_def Let_def mk_date_def split: option.splits if_splits)

text \<open>
  C9. The nearest show date is \<open>None\<close> when no calendar selector selects a widget.
  Otherwise every active link of the widget gives at most one date: none when it has no
  day element, when its day is not an integer, or when \<^verbatim>\<open>date\<close> refuses the day, so
  every date that is collected has a day of its month. The result is the earliest of the
  collected dates, and \<open>None\<close> when there is none.
\<close>

theorem nearest_date_is_minimum:
  "parse_schedule_calendar env now soup =
     (case find_widget env soup calendar_selectors of
        None \<Rightarrow> None
      | Some calendar_widget \<Rightarrow>
          (let D = {d. \<exists>link \<in> set (find_all_a_class (lit ''pdT6c'') calendar_widget).
                          link_date env now link = Some d}
           in if D = {} then None else Some (Min D))) \<and>
   (link_date env now link = Some (y, m, d) \<longrightarrow> 1 \<le> d \<and> d \<le> days_in_month y m)"
  using parse_schedule_calendar_eq link_date_valid by blast

lemmas detail_simps = parse_schedule_calendar_def calendar_selectors_def link_date_def
  int_of_str_def nat_of_digits_def mk_date_def days_in_month_def is_leap_def
  noyabrya_def dekabrya_def oktyabrya_def sublist_code

theorem nearest_date_is_minimum_witness:
  "find_widget (ex_env ex_net) ex_detail calendar_selectors \<noteq> None \<and>
   map (link_date (ex_env ex_net) \<lparr>dt_date = (2025, 10, 31), dt_time = 0\<rparr>)
     (find_all_a_class (lit ''pdT6c'') (the (find_widget (ex_env ex_net) ex_detail calendar_selectors))) =
     [None, Some (2025, 12, 3), Some (2025, 11, 15), None] \<and>
   parse_schedule_calendar (ex_env ex_net) \<lparr>dt_date = (2025, 10, 31), dt_time = 0\<rparr> ex_detail =
     Some (2025, 11, 15)"
proof -
  have a: "find_widget (ex_env ex_net) ex_detail calendar_selectors \<noteq> None"
    by (simp add: eval_simps detail_simps)
  have b: "map (link_date (ex_env ex_net) \<lparr>dt_date = (2025, 10, 31), dt_time = 0\<rparr>)
     (find_all_a_class (lit ''pdT6c'') (the (find_widget (ex_env ex_net) ex_detail calendar_selectors))) =
     [None, Some (2025, 12, 3), Some (2025, 11, 15), None]"
    by (simp add: eval_simps detail_simps)
  have c: "parse_schedule_calendar (ex_env ex_net) \<lparr>dt_date = (2025, 10, 31), dt_time = 0\<rparr> ex_detail =
     Some (2025, 11, 15)"
    by (simp add: eval_simps detail_simps)
  have "(1::int) \<le> 15 \<and> 15 \<le> days_in_month 2025 11"
    using nearest_date_is_minimum[where env = "ex_env ex_net"
        and now = "\<lparr>dt_date = (2025, 10, 31), dt_time = 0\<rparr>" and y = 2025 and m = 11 and d = 15
        and link = "Tag (lit ''a'') [lit ''pdT6c''] [(lit ''aria-label'', lit ''15 '' @ noyabrya)]
             [Tag (lit ''span'') [lit ''YCVqY''] [] [Text (lit '' 15 '')]]"]
    by (simp add: eval_simps detail_simps)
  with a b c show ?thesis by blast
qed

section \<open>Properties of the event materializer\<close>

lemma plus_two_hours_19: "plus_timedelta (combine d (time_hm 19 0)) 0 2 = combine d (time_hm 21 0)"
  by (simp add: plus_timedelta_def combine_def time_hm_def day_us_def)

lemma create_event_end:
  "create_calendar_event env cfg now mv = Some ev \<Longrightarrow> ev_end ev = plus_timedelta (ev_begin ev) 0 2"
  by (auto simp: create_calendar_event_def Let_def split: if_splits)

lemma create_event_fallback:
  assumes "nearest_show_date mv = None" and "times' mv = []"
    and "set (countries mv) \<inter> set (exclude_countries cfg) = {}"
  shows "\<exists>ev. create_calendar_event env cfg now mv = Some ev \<and>
           ev_begin ev = combine (next_day (dt_date now)) (time_hm 19 0) \<and>
           ev_end ev = combine (next_day (dt_date now)) (time_hm 21 0)"
proof -
  from assms(3) have "\<not> list_ex (\<lambda>country. country \<in> set (exclude_countries cfg)) (countries mv)"
    by (auto simp: list_ex_iff)
  then show ?thesis
    using assms(1,2)
    by (simp add: create_calendar_event_def Let_def plus_two_hours_19 date_plus_days_def)
qed

text \<open>
  C8. A movie without a nearest show date and without times, none of whose countries is
  excluded, gives an event that begins on the day after the current date at 19:00 and
  ends on that day at 21:00. Every event that \<open>create_calendar_event\<close> produces ends two
  hours after it begins.
\<close>

theorem fallback_event_tomorrow_19:
  "(nearest_show_date movie_data = None \<and> times' movie_data = [] \<and>
    set (countries movie_data) \<inter> set (exclude_countries cfg) = {} \<longrightarrow>
      (\<exists>ev. create_calendar_event env cfg now movie_data = Some ev \<and>
            ev_begin ev = combine (next_day (dt_date now)) (time_hm 19 0) \<and>
            ev_end ev = combine (next_day (dt_date now)) (time_hm 21 0))) \<and>
   (create_calendar_event env cfg now movie_data = Some ev' \<longrightarrow>
      ev_end ev' = plus_timedelta (ev_begin ev') 0 2) \<and>
   date_plus_days (dt_date now) 1 = next_day (dt_date now)"
proof (intro conjI impI)
  assume "nearest_show_date movie_data = None \<and> times' movie_data = [] \<and>
    set (countries movie_data) \<inter> set (exclude_countries cfg) = {}"
  then show "\<exists>ev. create_calendar_event env cfg now movie_data = Some ev \<and>
            ev_begin ev = combine (next_day (dt_date now)) (time_hm 19 0) \<and>
            ev_end ev = combine (next_day (dt_date now)) (time_hm 21 0)"
    using create_event_fallback by blast
next
  assume "create_calendar_event env cfg now movie_data = Some ev'"
  then show "ev_end ev' = plus_timedelta (ev_begin ev') 0 2"
    by (rule create_event_end)
next
  show "date_plus_days (dt_date now) 1 = next_day (dt_date now)"
    by (simp add: date_plus_days_def)
qed

theorem fallback_event_tomorrow_19_witness:
  "create_calendar_event (ex_env ex_net) ex_cfg ex_now (ex_movie ''Dune'' []) =
     Some \<lparr>ev_name = lit ''Dune'',
           ev_begin = \<lparr>dt_date = (2025, 11, 1), dt_time = time_hm 19 0\<rparr>,
           ev_end = \<lparr>dt_date = (2025, 11, 1), dt_time = time_hm 21 0\<rparr>,
           ev_description = [Film (lit ''Dune''),
              EventDate \<lparr>dt_date = (2025, 11, 1), dt_time = time_hm 19 0\<rparr>],
           ev_url = None\<rparr> \<and>
   next_day (dt_date ex_now) = (2025, 11, 1)"
proof -
  have a: "create_calendar_event (ex_env ex_net) ex_cfg ex_now (ex_movie ''Dune'' []) =
     Some \<lparr>ev_name = lit ''Dune'',
           ev_begin = \<lparr>dt_date = (2025, 11, 1), dt_time = time_hm 19 0\<rparr>,
           ev_end = \<lparr>dt_date = (2025, 11, 1), dt_time = time_hm 21 0\<rparr>,
           ev_description = [Film (lit ''Dune''),
              EventDate \<lparr>dt_date = (2025, 11, 1), dt_time = time_hm 19 0\<rparr>],
           ev_url = None\<rparr>"
    by (simp add: create_calendar_event_def ex_movie_def ex_cfg_def ex_now_def ex_env_def Let_def
        date_plus_days_def days_in_month_def combine_def plus_timedelta_def time_hm_def day_us_def)
  have b: "next_day (dt_date ex_now) = (2025, 11, 1)"
    by (simp add: ex_now_def days_in_month_def)
  have "\<exists>ev. create_calendar_event (ex_env ex_net) ex_cfg ex_now (ex_movie ''Dune'' []) = Some ev \<and>
            ev_begin ev = combine (next_day (dt_date ex_now)) (time_hm 19 0) \<and>
            ev_end ev = combine (next_day (dt_date ex_now)) (time_hm 21 0)"
    using fallback_event_tomorrow_19[where movie_data = "ex_movie ''Dune'' []" and cfg = ex_cfg
        and env = "ex_env ex_net" and now = ex_now]
    by (simp add: ex_movie_def ex_cfg_def)
  moreover have "ev_end
       \<lparr>ev_name = lit ''Dune'',
        ev_begin = \<lparr>dt_date = (2025, 11, 1), dt_time = time_hm 19 0\<rparr>,
        ev_end = \<lparr>dt_date = (2025, 11, 1), dt_time = time_hm 21 0\<rparr>,
        ev_description = [Film (lit ''Dune''),
           EventDate \<lparr>dt_date = (2025, 11, 1), dt_time = time_hm 19 0\<rparr>],
        ev_url = None\<rparr> =
      plus_timedelta \<lparr>dt_date = (2025, 11, 1), dt_time = time_hm 19 0\<rparr> 0 2"
    using fallback_event_tomorrow_19[where movie_data = "ex_movie ''Dune'' []" and cfg = ex_cfg
        and env = "ex_env ex_net" and now = ex_now
        and ev' = "\<lparr>ev_name = lit ''Dune'',
           ev_begin = \<lparr>dt_date = (2025, 11, 1), dt_time = time_hm 19 0\<rparr>,
           ev_end = \<lparr>dt_date = (2025, 11, 1), dt_time = time_hm 21 0\<rparr>,
           ev_description = [Film (lit ''Dune''),
              EventDate \<lparr>dt_date = (2025, 11, 1), dt_time = time_hm 19 0\<rparr>],
           ev_url = None\<rparr>"] a
    by simp
  ultimately show ?thesis using a b by blast
qed

section \<open>Properties of the run\<close>














lemma sort_set_unique:
  fixes ys :: "'a::linorder list"
  assumes "distinct ys" and "set ys = set xs"
  shows "sort ys = sort (remdups xs)"
  by (rule sorted_distinct_set_unique) (use assms in simp_all)

lemma sorted_first_le:
  fixes ts :: "'a::linorder list"
  assumes "sorted ts" and "t \<in> set ts"
  shows "ts ! 0 \<le> t"
proof -
  from assms(2) obtain i where "i < length ts" "ts ! i = t" by (auto simp: in_set_conv_nth)
  with assms(1) show ?thesis using sorted_nth_mono[of ts 0 i] by auto
qed

lemma merge_details_times:
  assumes "snd (snd details) \<noteq> []"
  shows "times' (merge_details mv details) = sort (remdups (times' mv @ snd (snd details)))"
  using assms by (simp add: merge_details_def Let_def)

text \<open>
  C10. When the detail page gave at least one show time, the times of the record become
  the list of the distinct strings of both lists in ascending order of strings: it is
  sorted, has no duplicates, holds exactly the strings of the two lists, and its first
  element is the least of them. Whatever order the intermediate \<^verbatim>\<open>set\<close> is listed
  in, sorting gives this list. The order is that of strings, not of times:
  \<^verbatim>\<open>10:00\<close> comes before \<^verbatim>\<open>9:30\<close>.
\<close>

theorem merged_times_sorted_as_strings:
  "(snd (snd details) \<noteq> [] \<longrightarrow>
      sorted (times' (merge_details movie_data details)) \<and>
      distinct (times' (merge_details movie_data details)) \<and>
      set (times' (merge_details movie_data details)) =
        set (times' movie_data) \<union> set (snd (snd details)) \<and>
      times' (merge_details movie_data details) ! 0 \<in>
        set (times' movie_data) \<union> set (snd (snd details)) \<and>
      (\<forall>t \<in> set (times' movie_data) \<union> set (snd (snd details)).
         times' (merge_details movie_data details) ! 0 \<le> t) \<and>
      (\<forall>ys. distinct ys \<and> set ys = set (times' movie_data) \<union> set (snd (snd details)) \<longrightarrow>
         sort ys = times' (merge_details movie_data details))) \<and>
   lit ''10:00'' < lit ''9:30''"
proof (intro conjI impI allI ballI)
  assume ne: "snd (snd details) \<noteq> []"
  let ?ts = "times' (merge_details movie_data details)"
  have eq: "?ts = sort (remdups (times' movie_data @ snd (snd details)))"
    using ne by (rule merge_details_times)
  show s: "sorted ?ts" unfolding eq by simp
  show "distinct ?ts" unfolding eq by simp
  show st: "set ?ts = set (times' movie_data) \<union> set (snd (snd details))" unfolding eq by simp
  from ne st have "?ts \<noteq> []" by auto
  then have "?ts ! 0 \<in> set ?ts" by simp
  then show "?ts ! 0 \<in> set (times' movie_data) \<union> set (snd (snd details))" using st by simp
  {
    fix t assume "t \<in> set (times' movie_data) \<union> set (snd (snd details))"
    then have "t \<in> set ?ts" using st by simp
    with s show "?ts ! 0 \<le> t" by (rule sorted_first_le)
  }
  {
    fix ys :: "pystr list"
    assume "distinct ys \<and> set ys = set (times' movie_data) \<union> set (snd (snd details))"
    then show "sort ys = ?ts"
      unfolding eq by (intro sort_set_unique) auto
  }
next
  show "lit ''10:00'' < lit ''9:30''" by (simp add: lit_def)
qed

theorem merged_times_sorted_as_strings_witness:
  "times' (merge_details (ex_movie ''Dune'' [''9:30'', ''22:00'']) ([], None, [lit ''10:00'', lit ''9:30''])) =
     [lit ''10:00'', lit ''22:00'', lit ''9:30''] \<and>
   times' (merge_details (ex_movie ''Dune'' [''9:30'', ''22:00'']) ([], None, [lit ''10:00'', lit ''9:30''])) ! 0 =
     lit ''10:00'' \<and>
   sort [lit ''9:30'', lit ''10:00'', lit ''22:00''] = [lit ''10:00'', lit ''22:00'', lit ''9:30'']"
proof -
  let ?mv = "ex_movie ''Dune'' [''9:30'', ''22:00'']"
  let ?d = "([] :: pystr list, None :: date option, [lit ''10:00'', lit ''9:30''])"
  have a: "times' (merge_details ?mv ?d) = [lit ''10:00'', lit ''22:00'', lit ''9:30'']"
    by (simp add: merge_details_def ex_movie_def lit_def)
  have ne: "snd (snd ?d) \<noteq> []" by simp
  have h: "distinct [lit ''9:30'', lit ''10:00'', lit ''22:00''] \<and>
      set [lit ''9:30'', lit ''10:00'', lit ''22:00''] = set (times' ?mv) \<union> set (snd (snd ?d))"
    by (auto simp: ex_movie_def lit_def)
  from merged_times_sorted_as_strings[where movie_data = ?mv and details = ?d] ne
  have "\<forall>ys. distinct ys \<and> set ys = set (times' ?mv) \<union> set (snd (snd ?d)) \<longrightarrow>
         sort ys = times' (merge_details ?mv ?d)"
    by blast
  with h have "sort [lit ''9:30'', lit ''10:00'', lit ''22:00''] = times' (merge_details ?mv ?d)"
    by blast
  with a show ?thesis by simp
qed


end
